theory Spec2Isabelle
  imports Complex_Main
begin

section \<open>Data model of the booking client (types/booking.ts)\<close>

text \<open>
  Timestamps are JavaScript \<open>Date\<close> time values: whole milliseconds since the epoch,
  modelled as \<open>int\<close>. Amounts in RWF and passenger counts are JavaScript numbers that
  only ever hold whole values here; they are \<open>int\<close> as well, so that a negative count
  (which \<open>parseInt\<close> of a query parameter can deliver) stays visible. Seat numbers are the
  button labels \<open>1..40\<close>, kept as \<open>nat\<close>.
\<close>

datatype BookingStatus = PENDING | CONFIRMED | COMPLETED | CANCELLED

datatype PaymentMethod = mobile_money | credit_card | pay_later

datatype PaymentStatus = PAID | UNPAID

record RouteInfo =
  origin :: string
  destination :: string

record BusInfo =
  idBus :: string
  busName :: string
  licensePlate :: string
  operatorName :: string

text \<open>The field \<open>id\<close> of the interface is \<open>idB\<close> here (\<open>id\<close> is the identity of HOL).\<close>

record Booking =
  idB :: string
  bookingNumber :: string
  userId :: "string option"
  passengerName :: string
  contactEmail :: "string option"
  contactPhone :: "string option"
  scheduleId :: string
  route :: RouteInfo
  bus :: BusInfo
  departureDate :: int
  departureTime :: int
  arrivalTime :: int
  seatNumbers :: "nat list"
  totalAmount :: int
  status :: BookingStatus
  paymentMethod :: PaymentMethod
  paymentStatus :: PaymentStatus
  createdAt :: int

text \<open>
  An awaited request either resolves with the response's \<open>data\<close> or rejects (the
  \<open>catch\<close> branch runs).
\<close>

datatype 'a ApiResponse = Resolved 'a | Rejected

section \<open>UserTickets.tsx: the client-side time windows\<close>

text \<open>
  \<open>isCancellable\<close> and \<open>isReviewable\<close> read the clock (\<open>new Date()\<close>); the reading is
  the parameter \<open>now\<close>. The quotient is a JavaScript number; for whole milliseconds the
  comparison with 24 (or 7) has the same outcome as over the reals, which is what is
  written here.
\<close>

definition isCancellable :: "int \<Rightarrow> Booking \<Rightarrow> bool" where
  "isCancellable now booking =
     (let hoursDiff = real_of_int (departureTime booking - now) / (1000 * 60 * 60)
      in status booking \<noteq> CANCELLED \<and> status booking \<noteq> COMPLETED \<and> hoursDiff > 24)"

definition isReviewable :: "int \<Rightarrow> Booking \<Rightarrow> bool" where
  "isReviewable now booking =
     (let daysDiff = real_of_int (now - arrivalTime booking) / (1000 * 60 * 60 * 24)
      in status booking = COMPLETED \<and> daysDiff \<le> 7)"

section \<open>useBooking.ts and UserDashboardPage.tsx: cancelling in the local list\<close>

text \<open>
  Both places post the cancellation and, when the request resolves, map over the previous
  list; when it rejects, the \<open>catch\<close> branch leaves the list alone. The hook returns
  \<open>true\<close>/\<open>false\<close>, the page resolves or rejects its promise: the first component of the
  result.
\<close>

definition cancelBooking :: "unit ApiResponse \<Rightarrow> string \<Rightarrow> Booking list \<Rightarrow> bool \<times> Booking list" where
  "cancelBooking api bookingId prevBookings =
     (case api of
        Resolved _ \<Rightarrow>
          (True, map (\<lambda>booking. if idB booking = bookingId
                                 then booking\<lparr>status := CANCELLED\<rparr>
                                 else booking) prevBookings)
      | Rejected \<Rightarrow> (False, prevBookings))"

definition handleCancelBooking :: "unit ApiResponse \<Rightarrow> string \<Rightarrow> Booking list \<Rightarrow> bool \<times> Booking list" where
  "handleCancelBooking api bookingId prevBookings =
     (case api of
        Resolved _ \<Rightarrow>
          (True, map (\<lambda>booking. if idB booking = bookingId
                                 then booking\<lparr>status := CANCELLED\<rparr>
                                 else booking) prevBookings)
      | Rejected \<Rightarrow> (False, prevBookings))"

section \<open>BookingForm.tsx: seat selection and the booking it hands over\<close>

text \<open>
  Template literals print a whole number in decimal, with a minus sign when negative
  (the numbers printed here, clock readings and six-digit draws, are far below the
  \<open>10^21\<close> from which JavaScript switches to exponent notation).
\<close>

definition digitChar :: "nat \<Rightarrow> char" where
  "digitChar d = char_of (48 + d)"

function natToString :: "nat \<Rightarrow> string" where
  "natToString n =
     (if n < 10 then [digitChar n] else natToString (n div 10) @ [digitChar (n mod 10)])"
  by pat_completeness auto
termination
  by (relation "measure (\<lambda>n. n)") auto

declare natToString.simps [simp del]

definition numberToString :: "int \<Rightarrow> string" where
  "numberToString i =
     (if i < 0 then CHR ''-'' # natToString (nat (- i)) else natToString (nat i))"

datatype UserRole = PUBLIC | USER | OPERATOR | ADMIN

record User =
  idU :: string
  nameU :: string
  emailU :: string
  role :: UserRole
  phoneU :: "string option"
  createdAtU :: int

text \<open>The properties of the component that the submit handler reads.\<close>

record BookingFormProps =
  scheduleIdP :: string
  originP :: string
  destinationP :: string
  departureTimeP :: int
  arrivalTimeP :: int
  price :: int
  operatorNameP :: string
  busNameP :: string
  availableSeats :: int
  passengers :: int

datatype FormPaymentMethod = opt_mobile_money | opt_card | opt_pay_later

record BookingFormData =
  name :: string
  email :: string
  phone :: string
  agreeToTerms :: bool
  paymentMethodF :: FormPaymentMethod

text \<open>
  What the handler reads from its surroundings while it builds the booking:
  \<open>Date.now()\<close>, \<open>Math.random()\<close> and \<open>new Date()\<close>.
\<close>

record Ambient =
  dateNow :: int
  mathRandom :: real
  newDate :: int

definition totalPrice :: "BookingFormProps \<Rightarrow> int" where
  "totalPrice props = price props * passengers props"

definition toggleSeatSelection :: "BookingFormProps \<Rightarrow> nat list \<Rightarrow> nat \<Rightarrow> nat list" where
  "toggleSeatSelection props selectedSeats seatNumber =
     (if seatNumber \<in> set selectedSeats
      then filter (\<lambda>seat. seat \<noteq> seatNumber) selectedSeats
      else if int (length selectedSeats) < passengers props
           then selectedSeats @ [seatNumber]
           else selectedSeats)"

text \<open>
  The selection starts empty (\<open>useState([])\<close>) and changes only through
  \<open>toggleSeatSelection\<close>; \<open>clicks\<close> are the seat buttons pressed, in order. After every
  change the component renders again, and the line that lists the selected seats sorts
  the state array in place (\<open>selectedSeats.sort((a, b) => a - b)\<close>), so the next click
  and the submit handler find it in ascending order.
\<close>

definition selectionAfter :: "BookingFormProps \<Rightarrow> nat list \<Rightarrow> nat list" where
  "selectionAfter props clicks =
     foldl (\<lambda>selectedSeats seatNumber.
              sort (toggleSeatSelection props selectedSeats seatNumber)) [] clicks"

text \<open>
  The booking the handler builds. The booking number is written with the sum taken over
  the reals; JavaScript rounds \<open>100000 + Math.random() * 900000\<close> to a double before
  \<open>Math.floor\<close>, which can move the number by one for a draw next to a whole value and
  leaves the range \<open>100000..999999\<close> as it is.
\<close>

definition mockBooking ::
  "BookingFormProps \<Rightarrow> Ambient \<Rightarrow> User option \<Rightarrow> nat list \<Rightarrow> BookingFormData \<Rightarrow> Booking" where
  "mockBooking props amb user selectedSeats data =
     \<lparr> idB = ''booking-'' @ numberToString (dateNow amb),
       bookingNumber = ''BK'' @ numberToString \<lfloor>100000 + mathRandom amb * 900000\<rfloor>,
       userId = map_option idU user,
       passengerName = name data,
       contactEmail = Some (email data),
       contactPhone = Some (phone data),
       scheduleId = scheduleIdP props,
       route = \<lparr> origin = originP props, destination = destinationP props \<rparr>,
       bus = \<lparr> idBus = ''bus-123'', busName = busNameP props,
               licensePlate = ''RAB123'', operatorName = operatorNameP props \<rparr>,
       departureDate = departureTimeP props,
       departureTime = departureTimeP props,
       arrivalTime = arrivalTimeP props,
       seatNumbers = selectedSeats,
       totalAmount = totalPrice props,
       status = CONFIRMED,
       paymentMethod =
         (if paymentMethodF data = opt_mobile_money then mobile_money
          else if paymentMethodF data = opt_card then credit_card
          else pay_later),
       paymentStatus = (if paymentMethodF data = opt_pay_later then UNPAID else PAID),
       createdAt = newDate amb \<rparr>"

text \<open>
  \<open>onSubmit\<close> returns early when too few seats are selected, hands
  \<open>response.data || mockBooking\<close> to \<open>onBookingComplete\<close> when the request resolves,
  and only shows a toast when it rejects.
\<close>

datatype SubmitOutcome = SelectSeatsFirst | BookingComplete Booking | BookingFailed

definition onSubmit ::
  "BookingFormProps \<Rightarrow> Ambient \<Rightarrow> User option \<Rightarrow> nat list \<Rightarrow> BookingFormData
     \<Rightarrow> Booking option ApiResponse \<Rightarrow> SubmitOutcome" where
  "onSubmit props amb user selectedSeats data response =
     (if int (length selectedSeats) < passengers props then SelectSeatsFirst
      else case response of
             Rejected \<Rightarrow> BookingFailed
           | Resolved (Some responseData) \<Rightarrow> BookingComplete responseData
           | Resolved None \<Rightarrow> BookingComplete (mockBooking props amb user selectedSeats data))"

section \<open>ScheduleManagement.tsx: the schedule form schema\<close>

text \<open>
  \<open>new Date(string)\<close> is the parameter \<open>parseDate\<close>: \<open>None\<close> stands for an invalid
  date, whose comparisons are all false. The schema collects the messages of the failed
  checks; the form's \<open>onSubmit\<close> runs only when there is none.
\<close>

datatype ScheduleStatus = ACTIVE | SCHEDULE_CANCELLED | SCHEDULE_COMPLETED

text \<open>
  The rows of the schedule table (interface \<open>Schedule\<close> of the component); the statuses
  \<open>'CANCELLED'\<close> and \<open>'COMPLETED'\<close> carry a prefix here, apart from the booking statuses.
\<close>

record ScheduleRow =
  idR :: string
  routeIdR :: string
  routeR :: RouteInfo
  busIdR :: string
  busNameR :: string
  busPlateR :: string
  departureTimeR :: string
  arrivalTimeR :: string
  priceR :: int
  availableSeatsR :: int
  totalSeatsR :: int
  statusR :: ScheduleStatus

record ScheduleFormData =
  routeId :: string
  busId :: string
  departureTimeS :: string
  arrivalTimeS :: string
  priceS :: int

definition arrivalAfterDeparture :: "(string \<Rightarrow> int option) \<Rightarrow> ScheduleFormData \<Rightarrow> bool" where
  "arrivalAfterDeparture parseDate data =
     (case (parseDate (departureTimeS data), parseDate (arrivalTimeS data)) of
        (Some dep, Some arr) \<Rightarrow> arr > dep
      | _ \<Rightarrow> False)"

definition scheduleFormSchema :: "(string \<Rightarrow> int option) \<Rightarrow> ScheduleFormData \<Rightarrow> string list" where
  "scheduleFormSchema parseDate data =
     (if length (routeId data) < 1 then [''Route is required''] else []) @
     (if length (busId data) < 1 then [''Bus is required''] else []) @
     (if length (departureTimeS data) < 1 then [''Departure time is required''] else []) @
     (if length (arrivalTimeS data) < 1 then [''Arrival time is required''] else []) @
     (if priceS data < 500 then [''Price must be at least 500 RWF''] else []) @
     (if arrivalAfterDeparture parseDate data then []
      else [''Arrival time must be after departure time''])"

text \<open>
  The request the form sends: an update when a schedule is selected, a creation otherwise,
  with both times converted by \<open>toISOString\<close> (which throws on an invalid date, so that
  nothing is sent).
\<close>

record SchedulePayload =
  routeIdA :: string
  busIdA :: string
  departureTimeA :: int
  arrivalTimeA :: int
  priceA :: int

datatype ScheduleSubmit =
    ValidationFailed "string list"
  | PutSchedule string SchedulePayload
  | PostSchedule SchedulePayload
  | NothingSent

definition submitSchedule ::
  "(string \<Rightarrow> int option) \<Rightarrow> string option \<Rightarrow> ScheduleFormData \<Rightarrow> ScheduleSubmit" where
  "submitSchedule parseDate selectedSchedule data =
     (if scheduleFormSchema parseDate data \<noteq> []
      then ValidationFailed (scheduleFormSchema parseDate data)
      else case (parseDate (departureTimeS data), parseDate (arrivalTimeS data)) of
             (Some dep, Some arr) \<Rightarrow>
               (let apiData = \<lparr> routeIdA = routeId data, busIdA = busId data,
                                departureTimeA = dep, arrivalTimeA = arr,
                                priceA = priceS data \<rparr>
                in case selectedSchedule of
                     Some sid \<Rightarrow> PutSchedule sid apiData
                   | None \<Rightarrow> PostSchedule apiData)
           | _ \<Rightarrow> NothingSent)"

text \<open>
  \<open>handleUpdateStatus\<close> sends the row it was given with only the status replaced
  (\<open>{ ...schedule, status: newStatus }\<close>); this is the body of its request.
\<close>

definition handleUpdateStatus :: "ScheduleRow \<Rightarrow> ScheduleStatus \<Rightarrow> ScheduleRow" where
  "handleUpdateStatus schedule newStatus = schedule\<lparr>statusR := newStatus\<rparr>"

section \<open>The seat inventory and booking lifecycle engine\<close>

text \<open>
  Modelled from the spec: the server side that answers \<open>POST /bookings\<close> and
  \<open>POST /bookings/:id/cancel\<close> is not among the sources, which hold only its callers.
  Everything in this section follows sections 3 and 4 of the specification: the seat
  states, \<open>tryHold\<close>, \<open>commit\<close>, \<open>release\<close>, \<open>snapshotAvailability\<close>, \<open>reserve\<close>, the
  lifecycle table and the orchestrator's \<open>createBooking\<close> and \<open>cancelBooking\<close>.
  Times are milliseconds, as in the client. A booking's identifier is its position in
  the engine's booking store. Three points the specification leaves open are fixed
  here and play no part in the results below: a seat set that fails validation and a
  seat count that differs from the passenger count are answered with
  \<open>InvalidSeatRequest\<close>, a requester who is not allowed to cancel with \<open>NotAuthorized\<close>,
  and the passenger count is an argument of \<open>createBooking\<close>.
\<close>

datatype SeatState = FREE | HELD | BOOKED

text \<open>
  The schedule status is the type \<open>ScheduleStatus\<close> of the client's schedule rows.
\<close>

record Schedule =
  routeRef :: string
  busRef :: string
  departure :: int
  arrival :: int
  seatPrice :: int
  totalSeats :: nat
  scheduleStatus :: ScheduleStatus

datatype Requester = RegisteredUser string | Guest string string string

datatype PayMethod = MobileMoney | Card | PayLater

datatype ChargeResult = Paid | Declined

datatype Rejection = InvalidSeatSet | SeatsTaken "nat list"

datatype Outcome = GRANTED | REJECTED Rejection

record Reservation =
  reservedOn :: string
  requested :: "nat list"
  requester :: Requester
  outcome :: Outcome

record CoreBooking =
  bookingIdent :: nat
  scheduleRef :: string
  seatSet :: "nat list"
  passenger :: Requester
  total :: int
  payMethod :: PayMethod
  payStatus :: PaymentStatus
  bookingState :: BookingStatus
  created :: int

datatype EngineError =
    ScheduleNotFound
  | ScheduleNotActive
  | SeatsUnavailable "nat list"
  | PaymentFailed
  | CancellationWindowClosed
  | InvalidTransition
  | BookingNotFound
  | InvalidSeatState
  | InvalidSeatRequest
  | NotAuthorized

type_synonym SeatInventory = "string \<Rightarrow> nat \<Rightarrow> SeatState"

record Engine =
  schedules :: "string \<rightharpoonup> Schedule"
  inventory :: SeatInventory
  ledger :: "Reservation list"
  bookings :: "CoreBooking list"

subsection \<open>Seat Inventory (4.1)\<close>

text \<open>
  Modelled from the spec: the Seat Inventory, absent from the sources. Per schedule it
  holds the state of every seat; \<open>snapshotAvailability\<close> reads it for the seats
  \<open>1..totalSeats\<close>, \<open>tryHold\<close> moves all requested seats from \<open>FREE\<close> to \<open>HELD\<close> or
  none, \<open>commit\<close> moves \<open>HELD\<close> seats to \<open>BOOKED\<close> and fails with \<open>InvalidSeatState\<close>
  otherwise, \<open>release\<close> frees seats and is idempotent.
\<close>

record Availability =
  freeSeats :: "nat set"
  heldSeats :: "nat set"
  bookedSeats :: "nat set"

definition snapshotAvailability :: "Engine \<Rightarrow> string \<Rightarrow> EngineError + Availability" where
  "snapshotAvailability eng sid =
     (case schedules eng sid of
        None \<Rightarrow> Inl ScheduleNotFound
      | Some sc \<Rightarrow>
          Inr \<lparr> freeSeats = {n \<in> {1..totalSeats sc}. inventory eng sid n = FREE},
                heldSeats = {n \<in> {1..totalSeats sc}. inventory eng sid n = HELD},
                bookedSeats = {n \<in> {1..totalSeats sc}. inventory eng sid n = BOOKED} \<rparr>)"

definition setSeats :: "SeatInventory \<Rightarrow> string \<Rightarrow> nat list \<Rightarrow> SeatState \<Rightarrow> SeatInventory" where
  "setSeats occ sid seatNos st =
     occ(sid := (\<lambda>n. if n \<in> set seatNos then st else occ sid n))"

datatype HoldResult = HoldGranted SeatInventory | HoldRejected "nat list"

definition tryHold :: "SeatInventory \<Rightarrow> string \<Rightarrow> nat list \<Rightarrow> HoldResult" where
  "tryHold occ sid seatNos =
     (let unavailable = filter (\<lambda>n. occ sid n \<noteq> FREE) seatNos
      in if unavailable = [] then HoldGranted (setSeats occ sid seatNos HELD)
         else HoldRejected unavailable)"

definition commit :: "SeatInventory \<Rightarrow> string \<Rightarrow> nat list \<Rightarrow> EngineError + SeatInventory" where
  "commit occ sid seatNos =
     (if list_all (\<lambda>n. occ sid n = HELD) seatNos
      then Inr (setSeats occ sid seatNos BOOKED)
      else Inl InvalidSeatState)"

definition release :: "SeatInventory \<Rightarrow> string \<Rightarrow> nat list \<Rightarrow> SeatInventory" where
  "release occ sid seatNos = setSeats occ sid seatNos FREE"

subsection \<open>Reservation Ledger (4.2)\<close>

text \<open>
  Modelled from the spec: the Reservation Ledger, absent from the sources. \<open>reserve\<close>
  validates the seat set (not empty, no duplicates, all within \<open>[1, totalSeats]\<close>), calls
  \<open>tryHold\<close> and appends the attempt with its outcome to the ledger.
\<close>

definition validSeatSet :: "Engine \<Rightarrow> string \<Rightarrow> nat list \<Rightarrow> bool" where
  "validSeatSet eng sid seatNos =
     (case schedules eng sid of
        None \<Rightarrow> False
      | Some sc \<Rightarrow>
          seatNos \<noteq> [] \<and> distinct seatNos \<and>
          list_all (\<lambda>n. 1 \<le> n \<and> n \<le> totalSeats sc) seatNos)"

definition reserve :: "Engine \<Rightarrow> string \<Rightarrow> nat list \<Rightarrow> Requester \<Rightarrow> Reservation \<times> Engine" where
  "reserve eng sid seatNos who =
     (let attempt = \<lparr> reservedOn = sid, requested = seatNos, requester = who,
                      outcome = GRANTED \<rparr>
      in if \<not> validSeatSet eng sid seatNos
         then (let r = attempt\<lparr>outcome := REJECTED InvalidSeatSet\<rparr>
               in (r, eng\<lparr>ledger := ledger eng @ [r]\<rparr>))
         else case tryHold (inventory eng) sid seatNos of
                HoldGranted occ' \<Rightarrow>
                  (attempt, eng\<lparr>inventory := occ', ledger := ledger eng @ [attempt]\<rparr>)
              | HoldRejected conflicting \<Rightarrow>
                  (let r = attempt\<lparr>outcome := REJECTED (SeatsTaken conflicting)\<rparr>
                   in (r, eng\<lparr>ledger := ledger eng @ [r]\<rparr>)))"

subsection \<open>Booking Lifecycle State Machine (4.3)\<close>

text \<open>
  Modelled from the spec: the lifecycle state machine, absent from the sources.
\<close>

datatype Event =
    PaymentConfirmed
  | PayLaterAccepted
  | HoldExpires
  | PassengerCancels
  | ScheduleCompletes
  | OperatorForceCancels

datatype SideEffect = NoSideEffect | CommitSeats | ReleaseSeats

definition cancellationWindow :: int where
  "cancellationWindow = 24 * 60 * 60 * 1000"

text \<open>
  The transition table, row by row: the target state, the side effect on the inventory
  and the payment status afterwards. Whatever the table does not list, and every event
  in a terminal state, is \<open>InvalidTransition\<close>.
\<close>

fun lifecycle ::
  "Schedule \<Rightarrow> int \<Rightarrow> CoreBooking \<Rightarrow> Event
     \<Rightarrow> EngineError + (BookingStatus \<times> SideEffect \<times> PaymentStatus)" where
  "lifecycle sc now b ev =
     (case (bookingState b, ev) of
        (PENDING, PaymentConfirmed) \<Rightarrow> Inr (CONFIRMED, CommitSeats, PAID)
      | (PENDING, PayLaterAccepted) \<Rightarrow> Inr (CONFIRMED, CommitSeats, payStatus b)
      | (PENDING, HoldExpires) \<Rightarrow> Inr (CANCELLED, ReleaseSeats, payStatus b)
      | (CONFIRMED, PassengerCancels) \<Rightarrow>
          (if departure sc - now > cancellationWindow
           then Inr (CANCELLED, ReleaseSeats, payStatus b)
           else Inl CancellationWindowClosed)
      | (CONFIRMED, ScheduleCompletes) \<Rightarrow>
          (if now > arrival sc then Inr (COMPLETED, NoSideEffect, payStatus b)
           else Inl InvalidTransition)
      | (PENDING, OperatorForceCancels) \<Rightarrow> Inr (CANCELLED, ReleaseSeats, payStatus b)
      | (CONFIRMED, OperatorForceCancels) \<Rightarrow> Inr (CANCELLED, ReleaseSeats, payStatus b)
      | _ \<Rightarrow> Inl InvalidTransition)"

definition applySideEffect ::
  "SeatInventory \<Rightarrow> string \<Rightarrow> nat list \<Rightarrow> SideEffect \<Rightarrow> EngineError + SeatInventory" where
  "applySideEffect occ sid seatNos eff =
     (case eff of
        NoSideEffect \<Rightarrow> Inr occ
      | CommitSeats \<Rightarrow> commit occ sid seatNos
      | ReleaseSeats \<Rightarrow> Inr (release occ sid seatNos))"

definition transition ::
  "Engine \<Rightarrow> int \<Rightarrow> nat \<Rightarrow> Event \<Rightarrow> (EngineError + CoreBooking) \<times> Engine" where
  "transition eng now bid ev =
     (if bid \<ge> length (bookings eng) then (Inl BookingNotFound, eng)
      else let b = bookings eng ! bid
           in case schedules eng (scheduleRef b) of
                None \<Rightarrow> (Inl ScheduleNotFound, eng)
              | Some sc \<Rightarrow>
                  (case lifecycle sc now b ev of
                     Inl err \<Rightarrow> (Inl err, eng)
                   | Inr (target, eff, paid) \<Rightarrow>
                       (case applySideEffect (inventory eng) (scheduleRef b) (seatSet b) eff of
                          Inl err \<Rightarrow> (Inl err, eng)
                        | Inr occ' \<Rightarrow>
                            (let b' = b\<lparr>bookingState := target, payStatus := paid\<rparr>
                             in (Inr b', eng\<lparr>inventory := occ',
                                              bookings := (bookings eng)[bid := b']\<rparr>)))))"

subsection \<open>Booking Orchestrator (4.4)\<close>

text \<open>
  Modelled from the spec: the orchestrator's \<open>createBooking\<close> and \<open>cancelBooking\<close>, absent
  from the sources (the client's \<open>cancelBooking\<close> above only posts the request; the
  operation here is named \<open>cancelBookingCore\<close>).
\<close>

text \<open>
  The first half of \<open>createBooking\<close>: the checks, the reservation and, on a grant, the
  booking in \<open>PENDING\<close> (the table's row from no state). The total is the seat price
  times the number of seats.
\<close>

definition pendingBooking ::
  "nat \<Rightarrow> Schedule \<Rightarrow> int \<Rightarrow> string \<Rightarrow> nat list \<Rightarrow> Requester \<Rightarrow> PayMethod \<Rightarrow> CoreBooking" where
  "pendingBooking ident sc now sid seatNos who payBy =
     \<lparr> bookingIdent = ident, scheduleRef = sid, seatSet = seatNos, passenger = who,
       total = seatPrice sc * int (length seatNos),
       payMethod = payBy, payStatus = UNPAID, bookingState = PENDING, created = now \<rparr>"

definition openBooking ::
  "Engine \<Rightarrow> int \<Rightarrow> string \<Rightarrow> nat list \<Rightarrow> nat \<Rightarrow> Requester \<Rightarrow> PayMethod
     \<Rightarrow> (EngineError + CoreBooking) \<times> Engine" where
  "openBooking eng now sid seatNos passengerCount who payBy =
     (case schedules eng sid of
        None \<Rightarrow> (Inl ScheduleNotFound, eng)
      | Some sc \<Rightarrow>
          if scheduleStatus sc \<noteq> ACTIVE then (Inl ScheduleNotActive, eng)
          else if length seatNos \<noteq> passengerCount then (Inl InvalidSeatRequest, eng)
          else (case reserve eng sid seatNos who of
                  (r, eng1) \<Rightarrow>
                    (case outcome r of
                       REJECTED (SeatsTaken conflicting) \<Rightarrow>
                         (Inl (SeatsUnavailable conflicting), eng1)
                     | REJECTED InvalidSeatSet \<Rightarrow> (Inl InvalidSeatRequest, eng1)
                     | GRANTED \<Rightarrow>
                         (let b = pendingBooking (length (bookings eng1)) sc now sid
                                    seatNos who payBy
                          in (Inr b, eng1\<lparr>bookings := bookings eng1 @ [b]\<rparr>)))))"

text \<open>
  \<open>createBooking\<close> drives the transition of the payment method at once. \<open>charge\<close> is the
  payment capability of section 6. When it declines, the hold is released and the
  pending booking is dropped again.
\<close>

definition createBooking ::
  "(int \<Rightarrow> PayMethod \<Rightarrow> Requester \<Rightarrow> ChargeResult) \<Rightarrow> Engine \<Rightarrow> int \<Rightarrow> string \<Rightarrow> nat list
     \<Rightarrow> nat \<Rightarrow> Requester \<Rightarrow> PayMethod \<Rightarrow> (EngineError + CoreBooking) \<times> Engine" where
  "createBooking charge eng now sid seatNos passengerCount who payBy =
     (case openBooking eng now sid seatNos passengerCount who payBy of
        (Inl err, eng1) \<Rightarrow> (Inl err, eng1)
      | (Inr b, eng2) \<Rightarrow>
          (case payBy of
             PayLater \<Rightarrow> transition eng2 now (bookingIdent b) PayLaterAccepted
           | _ \<Rightarrow>
               (case charge (total b) payBy who of
                  Paid \<Rightarrow> transition eng2 now (bookingIdent b) PaymentConfirmed
                | Declined \<Rightarrow>
                    (Inl PaymentFailed,
                     eng2\<lparr>inventory := release (inventory eng2) sid seatNos,
                          bookings := butlast (bookings eng2)\<rparr>))))"

definition cancelBookingCore ::
  "Engine \<Rightarrow> int \<Rightarrow> nat \<Rightarrow> bool \<Rightarrow> (EngineError + CoreBooking) \<times> Engine" where
  "cancelBookingCore eng now bid allowed =
     (if bid \<ge> length (bookings eng) then (Inl BookingNotFound, eng)
      else if \<not> allowed then (Inl NotAuthorized, eng)
      else transition eng now bid PassengerCancels)"

subsection \<open>Runs of the engine\<close>

text \<open>
  Modelled from the spec: requests are served one after the other, as section 5
  serialises the holds of a schedule. \<open>Open\<close> leaves a booking pending, so that other
  requests can be served before \<open>Fire\<close> delivers its payment, expiry or completion.
  A request carries the clock reading at which it is served. The engine starts with its
  schedules, every seat free, an empty ledger and no booking.
\<close>

datatype Request =
    Create string "nat list" nat Requester PayMethod
  | Open string "nat list" nat Requester PayMethod
  | Cancel nat bool
  | Fire nat Event

definition serve ::
  "(int \<Rightarrow> PayMethod \<Rightarrow> Requester \<Rightarrow> ChargeResult) \<Rightarrow> Engine \<Rightarrow> int \<times> Request \<Rightarrow> Engine" where
  "serve charge eng timed =
     (case timed of
        (now, Create sid seatNos n who payBy) \<Rightarrow>
          snd (createBooking charge eng now sid seatNos n who payBy)
      | (now, Open sid seatNos n who payBy) \<Rightarrow>
          snd (openBooking eng now sid seatNos n who payBy)
      | (now, Cancel bid allowed) \<Rightarrow> snd (cancelBookingCore eng now bid allowed)
      | (now, Fire bid ev) \<Rightarrow> snd (transition eng now bid ev))"

definition startEngine :: "(string \<rightharpoonup> Schedule) \<Rightarrow> Engine" where
  "startEngine scheds =
     \<lparr> schedules = scheds, inventory = (\<lambda>sid n. FREE), ledger = [], bookings = [] \<rparr>"

definition runEngine ::
  "(int \<Rightarrow> PayMethod \<Rightarrow> Requester \<Rightarrow> ChargeResult) \<Rightarrow> Engine \<Rightarrow> (int \<times> Request) list \<Rightarrow> Engine" where
  "runEngine charge eng reqs = foldl (serve charge) eng reqs"

text \<open>
  The properties of a state: a booking is live while \<open>PENDING\<close> or \<open>CONFIRMED\<close>; no
  overbooking means that two live bookings of one schedule share no seat.
\<close>

definition live :: "CoreBooking \<Rightarrow> bool" where
  "live b = (bookingState b = PENDING \<or> bookingState b = CONFIRMED)"

definition noOverbooking :: "Engine \<Rightarrow> bool" where
  "noOverbooking eng =
     (\<forall>i < length (bookings eng). \<forall>j < length (bookings eng).
        i \<noteq> j \<and> live (bookings eng ! i) \<and> live (bookings eng ! j) \<and>
        scheduleRef (bookings eng ! i) = scheduleRef (bookings eng ! j)
        \<longrightarrow> set (seatSet (bookings eng ! i)) \<inter> set (seatSet (bookings eng ! j)) = {})"

definition seatsMatchState :: "Engine \<Rightarrow> bool" where
  "seatsMatchState eng =
     (\<forall>i < length (bookings eng).
        (bookingState (bookings eng ! i) = PENDING \<longrightarrow>
           (\<forall>n \<in> set (seatSet (bookings eng ! i)).
              inventory eng (scheduleRef (bookings eng ! i)) n = HELD)) \<and>
        (bookingState (bookings eng ! i) = CONFIRMED \<longrightarrow>
           (\<forall>n \<in> set (seatSet (bookings eng ! i)).
              inventory eng (scheduleRef (bookings eng ! i)) n = BOOKED)))"

definition engineOk :: "Engine \<Rightarrow> bool" where
  "engineOk eng = (noOverbooking eng \<and> seatsMatchState eng)"

section \<open>Concrete values for the examples\<close>

definition exampleProps :: "int \<Rightarrow> int \<Rightarrow> BookingFormProps" where
  "exampleProps seatCost count =
     \<lparr> scheduleIdP = ''S1'', originP = ''Kigali'', destinationP = ''Musanze'',
       departureTimeP = 1800000000000, arrivalTimeP = 1800010800000,
       price = seatCost, operatorNameP = ''Virunga Express'', busNameP = ''Bus 1'',
       availableSeats = 20, passengers = count \<rparr>"

definition exampleData :: "FormPaymentMethod \<Rightarrow> BookingFormData" where
  "exampleData m =
     \<lparr> name = ''Alice Uwase'', email = ''alice@example.rw'', phone = ''0780000000'',
       agreeToTerms = True, paymentMethodF = m \<rparr>"

definition exampleTicket :: "string \<Rightarrow> BookingStatus \<Rightarrow> Booking" where
  "exampleTicket k st =
     \<lparr> idB = k, bookingNumber = ''BK123456'', userId = None,
       passengerName = ''Alice Uwase'', contactEmail = None, contactPhone = None,
       scheduleId = ''S1'',
       route = \<lparr> origin = ''Kigali'', destination = ''Musanze'' \<rparr>,
       bus = \<lparr> idBus = ''bus-123'', busName = ''Bus 1'', licensePlate = ''RAB123'',
               operatorName = ''Virunga Express'' \<rparr>,
       departureDate = 1800000000000, departureTime = 1800000000000,
       arrivalTime = 1800010800000, seatNumbers = [1, 2], totalAmount = 10000,
       status = st, paymentMethod = mobile_money, paymentStatus = PAID,
       createdAt = 1790000000000 \<rparr>"

definition exampleSchedule :: "nat \<Rightarrow> Schedule" where
  "exampleSchedule seatCount =
     \<lparr> routeRef = ''R1'', busRef = ''B1'', departure = 1800000000000,
       arrival = 1800010800000, seatPrice = 5000, totalSeats = seatCount,
       scheduleStatus = ACTIVE \<rparr>"

definition alwaysPaid :: "int \<Rightarrow> PayMethod \<Rightarrow> Requester \<Rightarrow> ChargeResult" where
  "alwaysPaid amount payBy who = Paid"

definition alwaysDeclined :: "int \<Rightarrow> PayMethod \<Rightarrow> Requester \<Rightarrow> ChargeResult" where
  "alwaysDeclined amount payBy who = Declined"

definition exampleParse :: "string \<Rightarrow> int option" where
  "exampleParse s =
     (if s = ''2026-03-01T08:00'' then Some 1772352000000
      else if s = ''2026-03-01T11:00'' then Some 1772362800000
      else None)"

definition exampleForm :: "string \<Rightarrow> string \<Rightarrow> ScheduleFormData" where
  "exampleForm dep arr =
     \<lparr> routeId = ''R1'', busId = ''B1'', departureTimeS = dep, arrivalTimeS = arr,
       priceS = 5000 \<rparr>"

definition exampleAmbient :: "int \<Rightarrow> real \<Rightarrow> Ambient" where
  "exampleAmbient clock draw = \<lparr> dateNow = clock, mathRandom = draw, newDate = clock \<rparr>"

text \<open>
  The scenario of the specification: schedule \<open>S1\<close> with two seats; A books seat 1 by
  mobile money, B asks for seats 1 and 2 and then for seat 2 alone.
\<close>

definition exampleStart :: Engine where
  "exampleStart = startEngine [''S1'' \<mapsto> exampleSchedule 2]"

definition exampleRequests :: "(int \<times> Request) list" where
  "exampleRequests =
     [(1790000000000, Create ''S1'' [1] 1 (RegisteredUser ''A'') MobileMoney),
      (1790000000001, Create ''S1'' [1, 2] 2 (RegisteredUser ''B'') Card),
      (1790000000002, Create ''S1'' [2] 1 (RegisteredUser ''B'') Card)]"

section \<open>Results about the client\<close>

lemma hours_window_int:
  "(real_of_int d / (1000 * 60 * 60) > 24) = (d > 86400000)"
proof -
  have "(real_of_int d / 3600000 > 24) = (real_of_int d > 24 * 3600000)"
    by (simp add: pos_less_divide_eq)
  also have "\<dots> = (d > 86400000)"
    by linarith
  finally show ?thesis by simp
qed

lemma days_window_int:
  "(real_of_int d / (1000 * 60 * 60 * 24) \<le> 7) = (d \<le> 604800000)"
proof -
  have "(real_of_int d / 86400000 \<le> 7) = (real_of_int d \<le> 7 * 86400000)"
    by (simp add: pos_divide_le_eq)
  also have "\<dots> = (d \<le> 604800000)"
    by linarith
  finally show ?thesis by simp
qed

lemma isCancellable_iff:
  "isCancellable now b =
     (status b \<noteq> CANCELLED \<and> status b \<noteq> COMPLETED \<and> departureTime b - now > 86400000)"
  unfolding isCancellable_def Let_def hours_window_int by (rule refl)

lemma isReviewable_iff:
  "isReviewable now b = (status b = COMPLETED \<and> now - arrivalTime b \<le> 604800000)"
  unfolding isReviewable_def Let_def days_window_int by (rule refl)

text \<open>
  C4. Review eligibility holds exactly when the booking is \<open>COMPLETED\<close> and at most seven
  days (604800000 ms) have passed since arrival. A booking that arrived exactly seven days
  ago is eligible; one that arrived seven days and one second ago is not.
\<close>

theorem C4_review_eligibility:
  "isReviewable now b = (status b = COMPLETED \<and> now - arrivalTime b \<le> 7 * 24 * 60 * 60 * 1000) \<and>
   isReviewable now (b\<lparr>status := COMPLETED, arrivalTime := now - 7 * 24 * 60 * 60 * 1000\<rparr>) \<and>
   \<not> isReviewable now (b\<lparr>status := COMPLETED, arrivalTime := now - 7 * 24 * 60 * 60 * 1000 - 1000\<rparr>)"
  by (simp add: isReviewable_iff)

lemma cancel_map_nth:
  "i < length bs \<Longrightarrow>
   map (\<lambda>booking. if idB booking = k then booking\<lparr>status := CANCELLED\<rparr> else booking) bs ! i =
     (if idB (bs ! i) = k then (bs ! i)\<lparr>status := CANCELLED\<rparr> else bs ! i)"
  by simp

lemma cancel_map_absent:
  "\<forall>b \<in> set bs. idB b \<noteq> k \<Longrightarrow>
   map (\<lambda>booking. if idB booking = k then booking\<lparr>status := CANCELLED\<rparr> else booking) bs = bs"
  by (induction bs) auto

text \<open>
  C10. A cancellation that resolves sets the status of every booking whose id is the
  given one to \<open>CANCELLED\<close> and changes nothing else: the list keeps its length and
  order, every other booking is the same, putting the old status back into a changed
  booking gives the old booking, and a list without that id is returned as it was. The
  hook and the dashboard page do the same; a rejected request leaves the list alone.
\<close>

theorem C10_cancel_frame:
  "fst (cancelBooking (Resolved u) k bs) \<and>
   length (snd (cancelBooking (Resolved u) k bs)) = length bs \<and>
   (\<forall>i < length bs.
      (idB (bs ! i) = k \<longrightarrow>
         snd (cancelBooking (Resolved u) k bs) ! i = (bs ! i)\<lparr>status := CANCELLED\<rparr>) \<and>
      (idB (bs ! i) \<noteq> k \<longrightarrow> snd (cancelBooking (Resolved u) k bs) ! i = bs ! i) \<and>
      (snd (cancelBooking (Resolved u) k bs) ! i)\<lparr>status := status (bs ! i)\<rparr> = bs ! i) \<and>
   ((\<forall>b \<in> set bs. idB b \<noteq> k) \<longrightarrow> snd (cancelBooking (Resolved u) k bs) = bs) \<and>
   handleCancelBooking (Resolved u) k bs = cancelBooking (Resolved u) k bs \<and>
   cancelBooking Rejected k bs = (False, bs) \<and>
   handleCancelBooking Rejected k bs = (False, bs)"
  by (simp add: cancelBooking_def handleCancelBooking_def cancel_map_absent)




theorem C10_cancel_frame_witness:
  "snd (cancelBooking (Resolved ()) ''b1''
          [exampleTicket ''b1'' CONFIRMED, exampleTicket ''b2'' PENDING]) ! 0
     = exampleTicket ''b1'' CANCELLED \<and>
   snd (cancelBooking (Resolved ()) ''b1''
          [exampleTicket ''b1'' CONFIRMED, exampleTicket ''b2'' PENDING]) ! 1
     = exampleTicket ''b2'' PENDING \<and>
   snd (cancelBooking (Resolved ()) ''b3''
          [exampleTicket ''b1'' CONFIRMED, exampleTicket ''b2'' PENDING])
     = [exampleTicket ''b1'' CONFIRMED, exampleTicket ''b2'' PENDING]"
proof -
  let ?bs = "[exampleTicket ''b1'' CONFIRMED, exampleTicket ''b2'' PENDING]"
  have ids: "idB (?bs ! 0) = ''b1''" "idB (?bs ! 1) \<noteq> ''b1''"
    "\<forall>b \<in> set ?bs. idB b \<noteq> ''b3''"
    by (simp_all add: exampleTicket_def)
  have len: "0 < length ?bs" "1 < length ?bs" by simp_all
  note frame = C10_cancel_frame [of "()" "''b1''" ?bs]
  note absent = C10_cancel_frame [of "()" "''b3''" ?bs]
  have a: "snd (cancelBooking (Resolved ()) ''b1'' ?bs) ! 0 = (?bs ! 0)\<lparr>status := CANCELLED\<rparr>"
    using frame ids(1) len(1) by blast
  have b: "snd (cancelBooking (Resolved ()) ''b1'' ?bs) ! 1 = ?bs ! 1"
    using frame ids(2) len(2) by blast
  have c: "snd (cancelBooking (Resolved ()) ''b3'' ?bs) = ?bs"
    using absent ids(3) by blast
  have d: "(?bs ! 0)\<lparr>status := CANCELLED\<rparr> = exampleTicket ''b1'' CANCELLED"
    by (simp add: exampleTicket_def)
  show ?thesis using a b c d by simp
qed

subsection \<open>Decimal printing\<close>

lemma digitChar_values:
  "digitChar 0 = CHR ''0''" "digitChar (Suc 0) = CHR ''1''" "digitChar 2 = CHR ''2''"
  "digitChar 3 = CHR ''3''" "digitChar 4 = CHR ''4''" "digitChar 5 = CHR ''5''"
  "digitChar 6 = CHR ''6''" "digitChar 7 = CHR ''7''" "digitChar 8 = CHR ''8''"
  "digitChar 9 = CHR ''9''"
  by code_simp+

lemma digitChar_cases:
  assumes "d < 10"
  shows "digitChar d \<in> set ''0123456789''"
proof -
  from assms have "d \<in> {0, Suc 0, 2, 3, 4, 5, 6, 7, 8, 9}"
    by auto
  then show ?thesis
    by (auto simp add: digitChar_values)
qed

lemma natToString_digits: "set (natToString n) \<subseteq> set ''0123456789''"
proof (induction n rule: natToString.induct)
  case (1 n)
  show ?case
  proof (cases "n < 10")
    case True
    then show ?thesis
      using digitChar_cases [of n] by (subst natToString.simps) simp
  next
    case False
    have "n mod 10 < 10" by simp
    then have "digitChar (n mod 10) \<in> set ''0123456789''"
      by (rule digitChar_cases)
    with False 1 show ?thesis
      by (subst natToString.simps) simp
  qed
qed

lemma natToString_length:
  "10 ^ k \<le> n \<Longrightarrow> n < 10 ^ Suc k \<Longrightarrow> length (natToString n) = Suc k"
proof (induction k arbitrary: n)
  case 0
  then have "n < 10" by simp
  then show ?case by (subst natToString.simps) simp
next
  case (Suc k)
  have "(10::nat) \<le> 10 ^ Suc k" by simp
  with Suc.prems have big: "\<not> n < 10" by linarith
  from Suc.prems have lo: "10 ^ k \<le> n div 10" by auto
  from Suc.prems have hi: "n div 10 < 10 ^ Suc k"
    by (simp add: less_mult_imp_div_less mult.commute)
  have "length (natToString (n div 10)) = Suc k"
    using Suc.IH [OF lo hi] .
  with big show ?case by (subst natToString.simps) simp
qed

subsection \<open>Seat selection\<close>

lemma toggle_keeps_bound:
  assumes "int (length sel) \<le> max 0 (passengers props)"
  shows "int (length (toggleSeatSelection props sel n)) \<le> max 0 (passengers props)"
proof -
  have "length (filter (\<lambda>seat. seat \<noteq> n) sel) \<le> length sel"
    by (rule length_filter_le)
  then have "int (length (filter (\<lambda>seat. seat \<noteq> n) sel)) \<le> int (length sel)"
    by simp
  with assms have shrink:
    "int (length (filter (\<lambda>seat. seat \<noteq> n) sel)) \<le> max 0 (passengers props)"
    by linarith
  show ?thesis
  proof (cases "n \<in> set sel")
    case True
    with shrink show ?thesis by (simp add: toggleSeatSelection_def)
  next
    case False
    with assms show ?thesis by (simp add: toggleSeatSelection_def)
  qed
qed

lemma toggle_keeps_distinct:
  "distinct sel \<Longrightarrow> distinct (toggleSeatSelection props sel n)"
  by (simp add: toggleSeatSelection_def)

lemma foldl_toggle_invariant:
  assumes "int (length sel) \<le> max 0 (passengers props)" "distinct sel"
  shows "int (length (foldl (\<lambda>selectedSeats seatNumber.
                   sort (toggleSeatSelection props selectedSeats seatNumber)) sel clicks))
           \<le> max 0 (passengers props)
         \<and> distinct (foldl (\<lambda>selectedSeats seatNumber.
                   sort (toggleSeatSelection props selectedSeats seatNumber)) sel clicks)"
  using assms
proof (induction clicks arbitrary: sel)
  case Nil
  then show ?case by simp
next
  case (Cons c clicks)
  have "int (length (toggleSeatSelection props sel c)) \<le> max 0 (passengers props)"
    using Cons.prems(1) by (rule toggle_keeps_bound)
  then have "int (length (sort (toggleSeatSelection props sel c))) \<le> max 0 (passengers props)"
    by simp
  moreover have "distinct (toggleSeatSelection props sel c)"
    using Cons.prems(2) by (rule toggle_keeps_distinct)
  then have "distinct (sort (toggleSeatSelection props sel c))"
    by simp
  ultimately show ?case
    using Cons.IH by simp
qed

lemma selectionAfter_invariant:
  "int (length (selectionAfter props clicks)) \<le> max 0 (passengers props)
   \<and> distinct (selectionAfter props clicks)"
  unfolding selectionAfter_def by (rule foldl_toggle_invariant) simp_all

lemma total_is_price_times_seats:
  assumes "0 \<le> passengers props"
    and "onSubmit props amb user (selectionAfter props clicks) data (Resolved None)
           = BookingComplete b"
  shows "totalAmount b = price props * int (length (seatNumbers b))
         \<and> distinct (seatNumbers b)"
proof -
  let ?sel = "selectionAfter props clicks"
  from assms(2) have enough: "\<not> int (length ?sel) < passengers props"
    by (auto simp add: onSubmit_def split: if_splits)
  with assms(2) have b: "b = mockBooking props amb user ?sel data"
    by (simp add: onSubmit_def)
  from selectionAfter_invariant [of props clicks] assms(1)
  have "int (length ?sel) \<le> passengers props" "distinct ?sel" by simp_all
  with enough have "int (length ?sel) = passengers props" by simp
  with b \<open>distinct ?sel\<close> show ?thesis
    by (simp add: mockBooking_def totalPrice_def)
qed

text \<open>
  C7. The total of the booking built by the form is the seat price times the passenger
  count, and the seats are the selection. For a passenger count that is not negative the
  two agree (lemma \<open>total_is_price_times_seats\<close>). A negative count, which the search
  page takes from the query string unchecked, passes both guards with no seat selected:
  the booking for \<open>passengers = -2\<close> at 5000 RWF has no seat and a total of -10000,
  not 5000 times its number of seats.
\<close>

theorem C7_negative_passenger_count:
  "selectionAfter (exampleProps 5000 (- 2)) [3, 7] = [] \<and>
   onSubmit (exampleProps 5000 (- 2)) amb user
       (selectionAfter (exampleProps 5000 (- 2)) [3, 7]) data (Resolved None)
     = BookingComplete (mockBooking (exampleProps 5000 (- 2)) amb user [] data) \<and>
   seatNumbers (mockBooking (exampleProps 5000 (- 2)) amb user [] data) = [] \<and>
   totalAmount (mockBooking (exampleProps 5000 (- 2)) amb user [] data) = - 10000 \<and>
   totalAmount (mockBooking (exampleProps 5000 (- 2)) amb user [] data) \<noteq>
     price (exampleProps 5000 (- 2)) *
       int (length (seatNumbers (mockBooking (exampleProps 5000 (- 2)) amb user [] data)))"
  by (simp add: selectionAfter_def toggleSeatSelection_def exampleProps_def onSubmit_def
        mockBooking_def totalPrice_def)

subsection \<open>Schedule form\<close>

lemma schema_accepts_iff:
  "(scheduleFormSchema parseDate data = []) =
     (routeId data \<noteq> [] \<and> busId data \<noteq> [] \<and> departureTimeS data \<noteq> [] \<and>
      arrivalTimeS data \<noteq> [] \<and> 500 \<le> priceS data \<and> arrivalAfterDeparture parseDate data)"
  by (auto simp add: scheduleFormSchema_def)

lemma arrivalAfterDeparture_iff:
  "arrivalAfterDeparture parseDate data =
     (\<exists>dep arr. parseDate (departureTimeS data) = Some dep \<and>
                parseDate (arrivalTimeS data) = Some arr \<and> dep < arr)"
  by (auto simp add: arrivalAfterDeparture_def split: option.splits)

text \<open>
  C8. The schedule form accepts only data whose two times parse and whose arrival is
  strictly after the departure. Data without that property is rejected with the message
  of the refinement and nothing is sent; every create or update request the form sends
  carries \<open>departure < arrival\<close>. The only other update, the change of status, sends
  the two times of the stored row as they are.
\<close>

theorem C8_arrival_after_departure:
  "(scheduleFormSchema parseDate data = [] \<longrightarrow>
      (\<exists>dep arr. parseDate (departureTimeS data) = Some dep \<and>
                 parseDate (arrivalTimeS data) = Some arr \<and> dep < arr)) \<and>
   (\<not> (\<exists>dep arr. parseDate (departureTimeS data) = Some dep \<and>
                 parseDate (arrivalTimeS data) = Some arr \<and> dep < arr) \<longrightarrow>
      ''Arrival time must be after departure time'' \<in> set (scheduleFormSchema parseDate data) \<and>
      submitSchedule parseDate selected data
        = ValidationFailed (scheduleFormSchema parseDate data)) \<and>
   (\<forall>k payload.
      submitSchedule parseDate selected data = PutSchedule k payload \<or>
      submitSchedule parseDate selected data = PostSchedule payload
      \<longrightarrow> departureTimeA payload < arrivalTimeA payload) \<and>
   departureTimeR (handleUpdateStatus schedule newStatus) = departureTimeR schedule \<and>
   arrivalTimeR (handleUpdateStatus schedule newStatus) = arrivalTimeR schedule"
proof (intro conjI impI allI)
  assume "scheduleFormSchema parseDate data = []"
  then show "\<exists>dep arr. parseDate (departureTimeS data) = Some dep \<and>
                 parseDate (arrivalTimeS data) = Some arr \<and> dep < arr"
    by (simp add: schema_accepts_iff arrivalAfterDeparture_iff)
next
  assume bad: "\<not> (\<exists>dep arr. parseDate (departureTimeS data) = Some dep \<and>
                 parseDate (arrivalTimeS data) = Some arr \<and> dep < arr)"
  then have no: "\<not> arrivalAfterDeparture parseDate data"
    by (simp add: arrivalAfterDeparture_iff)
  then show "''Arrival time must be after departure time''
               \<in> set (scheduleFormSchema parseDate data)"
    by (simp add: scheduleFormSchema_def)
  from no have "scheduleFormSchema parseDate data \<noteq> []"
    by (simp add: schema_accepts_iff)
  then show "submitSchedule parseDate selected data
               = ValidationFailed (scheduleFormSchema parseDate data)"
    by (simp add: submitSchedule_def)
next
  fix k payload
  assume sent: "submitSchedule parseDate selected data = PutSchedule k payload \<or>
                submitSchedule parseDate selected data = PostSchedule payload"
  then have ok: "scheduleFormSchema parseDate data = []"
    by (auto simp add: submitSchedule_def split: if_splits)
  then obtain dep arr where p: "parseDate (departureTimeS data) = Some dep"
      "parseDate (arrivalTimeS data) = Some arr" "dep < arr"
    by (auto simp add: schema_accepts_iff arrivalAfterDeparture_iff)
  with sent ok show "departureTimeA payload < arrivalTimeA payload"
    by (auto simp add: submitSchedule_def Let_def split: option.splits)
next
  show "departureTimeR (handleUpdateStatus schedule newStatus) = departureTimeR schedule"
    by (simp add: handleUpdateStatus_def)
next
  show "arrivalTimeR (handleUpdateStatus schedule newStatus) = arrivalTimeR schedule"
    by (simp add: handleUpdateStatus_def)
qed

theorem C8_arrival_after_departure_witness:
  "scheduleFormSchema exampleParse (exampleForm ''2026-03-01T08:00'' ''2026-03-01T11:00'') = [] \<and>
   (\<exists>dep arr. exampleParse ''2026-03-01T08:00'' = Some dep \<and>
              exampleParse ''2026-03-01T11:00'' = Some arr \<and> dep < arr) \<and>
   submitSchedule exampleParse None (exampleForm ''2026-03-01T11:00'' ''2026-03-01T08:00'')
     = ValidationFailed [''Arrival time must be after departure time'']"
proof -
  let ?good = "exampleForm ''2026-03-01T08:00'' ''2026-03-01T11:00''"
  let ?bad = "exampleForm ''2026-03-01T11:00'' ''2026-03-01T08:00''"
  have ok: "scheduleFormSchema exampleParse ?good = []"
    by (simp add: scheduleFormSchema_def arrivalAfterDeparture_def exampleParse_def
          exampleForm_def)
  with C8_arrival_after_departure [of exampleParse ?good None]
  have ex: "\<exists>dep arr. exampleParse (departureTimeS ?good) = Some dep \<and>
              exampleParse (arrivalTimeS ?good) = Some arr \<and> dep < arr"
    by blast
  have issues: "scheduleFormSchema exampleParse ?bad
                  = [''Arrival time must be after departure time'']"
    by (simp add: scheduleFormSchema_def arrivalAfterDeparture_def exampleParse_def
          exampleForm_def)
  have "\<not> (\<exists>dep arr. exampleParse (departureTimeS ?bad) = Some dep \<and>
              exampleParse (arrivalTimeS ?bad) = Some arr \<and> dep < arr)"
    by (simp add: exampleParse_def exampleForm_def)
  with C8_arrival_after_departure [of exampleParse ?bad None]
  have "submitSchedule exampleParse None ?bad
          = ValidationFailed (scheduleFormSchema exampleParse ?bad)"
    by blast
  with issues ok ex show ?thesis
    by (simp add: exampleForm_def)
qed

subsection \<open>Booking reference\<close>

lemma bookingNumber_format:
  assumes "0 \<le> mathRandom amb" "mathRandom amb < 1"
  shows "\<exists>digits. bookingNumber (mockBooking props amb user seats data) = ''BK'' @ digits \<and>
           length digits = 6 \<and> set digits \<subseteq> set ''0123456789''"
proof -
  define n where "n = \<lfloor>100000 + mathRandom amb * 900000\<rfloor>"
  from assms(1) have "100000 \<le> 100000 + mathRandom amb * 900000" by simp
  then have lo: "100000 \<le> n" unfolding n_def by linarith
  from assms(2) have "100000 + mathRandom amb * 900000 < 1000000" by simp
  then have hi: "n < 1000000" unfolding n_def by linarith
  from lo have pos: "\<not> n < 0" by linarith
  from lo have "10 ^ 5 \<le> nat n" by simp
  moreover from hi have "nat n < 10 ^ Suc 5" by simp
  ultimately have "length (natToString (nat n)) = Suc 5"
    by (rule natToString_length)
  then have len: "length (natToString (nat n)) = 6" by simp
  have digs: "set (natToString (nat n)) \<subseteq> set ''0123456789''"
    by (rule natToString_digits)
  have "bookingNumber (mockBooking props amb user seats data) = ''BK'' @ numberToString n"
    unfolding n_def by (simp add: mockBooking_def)
  with pos have "bookingNumber (mockBooking props amb user seats data)
                   = ''BK'' @ natToString (nat n)"
    by (simp add: numberToString_def)
  with len digs show ?thesis by blast
qed

text \<open>
  C9, as amended. The booking built by the form carries a booking number that is
  \<open>BK\<close> followed by six decimal digits (for a draw in \<open>[0, 1)\<close>) and that differs from
  the booking's id.
\<close>

theorem C9_booking_number:
  "(0 \<le> mathRandom amb \<and> mathRandom amb < 1 \<longrightarrow>
      (\<exists>digits. bookingNumber (mockBooking props amb user seats data) = ''BK'' @ digits \<and>
         length digits = 6 \<and> set digits \<subseteq> set ''0123456789'')) \<and>
   bookingNumber (mockBooking props amb user seats data)
     \<noteq> idB (mockBooking props amb user seats data)"
  using bookingNumber_format [of amb props user seats data]
  by (simp add: mockBooking_def)

theorem C9_booking_number_witness:
  "(0::real) \<le> 1 / 2 \<and> (1 / 2 :: real) < 1 \<and>
   bookingNumber (mockBooking (exampleProps 5000 1) (exampleAmbient 1800000000000 (1 / 2))
                    None [1] (exampleData opt_card)) = ''BK550000''"
proof -
  let ?amb = "exampleAmbient 1800000000000 (1 / 2)"
  let ?b = "mockBooking (exampleProps 5000 1) ?amb None [1] (exampleData opt_card)"
  have range: "0 \<le> mathRandom ?amb \<and> mathRandom ?amb < 1"
    by (simp add: exampleAmbient_def)
  with C9_booking_number [of ?amb "exampleProps 5000 1" None "[1]" "exampleData opt_card"]
  obtain digits where "bookingNumber ?b = ''BK'' @ digits" "length digits = 6"
    by blast
  moreover have "bookingNumber ?b = ''BK550000''"
    by (simp add: mockBooking_def exampleAmbient_def numberToString_def natToString.simps
          digitChar_values)
  ultimately show ?thesis by simp
qed

text \<open>
  C9 as stated fails: two bookings made one millisecond apart with the draws 0.5 and
  0.5000001 have different ids and the same booking number \<open>BK550000\<close>.
\<close>

theorem C9_reference_not_unique:
  "idB (mockBooking (exampleProps 5000 1) (exampleAmbient 1800000000000 (1 / 2))
          None [1] (exampleData opt_card))
     \<noteq> idB (mockBooking (exampleProps 5000 1)
                (exampleAmbient 1800000000001 (5000001 / 10000000))
                None [2] (exampleData opt_card)) \<and>
   bookingNumber (mockBooking (exampleProps 5000 1) (exampleAmbient 1800000000000 (1 / 2))
          None [1] (exampleData opt_card))
     = bookingNumber (mockBooking (exampleProps 5000 1)
                (exampleAmbient 1800000000001 (5000001 / 10000000))
                None [2] (exampleData opt_card))"
  by (simp add: mockBooking_def exampleAmbient_def numberToString_def natToString.simps
        digitChar_values)

section \<open>Results about the engine\<close>

subsection \<open>Seat inventory\<close>

lemma setSeats_apply:
  "setSeats occ sid seatNos st sid' n =
     (if sid' = sid \<and> n \<in> set seatNos then st else occ sid' n)"
  by (simp add: setSeats_def)

lemma tryHold_granted_iff:
  "(tryHold occ sid seatNos = HoldGranted occ') =
     ((\<forall>n \<in> set seatNos. occ sid n = FREE) \<and> occ' = setSeats occ sid seatNos HELD)"
  by (auto simp add: tryHold_def Let_def filter_empty_conv)

lemma tryHold_rejected_iff:
  "(tryHold occ sid seatNos = HoldRejected conflicting) =
     (conflicting = filter (\<lambda>n. occ sid n \<noteq> FREE) seatNos \<and> conflicting \<noteq> [])"
  by (auto simp add: tryHold_def Let_def)

lemma release_after_hold:
  assumes "\<forall>n \<in> set seatNos. occ sid n = FREE"
  shows "release (setSeats occ sid seatNos HELD) sid seatNos = occ"
proof (rule ext, rule ext)
  fix s n
  show "release (setSeats occ sid seatNos HELD) sid seatNos s n = occ s n"
    using assms by (simp add: release_def setSeats_apply)
qed

subsection \<open>The state properties depend on the bookings and the inventory only\<close>

lemma engineOk_cong:
  "bookings e' = bookings e \<Longrightarrow> inventory e' = inventory e \<Longrightarrow> engineOk e' = engineOk e"
  by (simp add: engineOk_def noOverbooking_def seatsMatchState_def)

lemma engineOk_start: "engineOk (startEngine scheds)"
  by (simp add: engineOk_def noOverbooking_def seatsMatchState_def startEngine_def)

lemma live_seats_taken:
  assumes "seatsMatchState eng" "i < length (bookings eng)" "live (bookings eng ! i)"
    "n \<in> set (seatSet (bookings eng ! i))"
  shows "inventory eng (scheduleRef (bookings eng ! i)) n \<noteq> FREE"
proof -
  from assms(3) consider "bookingState (bookings eng ! i) = PENDING"
    | "bookingState (bookings eng ! i) = CONFIRMED"
    by (auto simp add: live_def)
  then show ?thesis
  proof cases
    case 1
    with assms(1,2,4) have "inventory eng (scheduleRef (bookings eng ! i)) n = HELD"
      by (simp add: seatsMatchState_def)
    then show ?thesis by simp
  next
    case 2
    with assms(1,2,4) have "inventory eng (scheduleRef (bookings eng ! i)) n = BOOKED"
      by (simp add: seatsMatchState_def)
    then show ?thesis by simp
  qed
qed

subsection \<open>Opening a booking\<close>

lemma add_pending_ok:
  assumes ok: "engineOk eng"
    and free: "\<forall>n \<in> set seatNos. inventory eng sid n = FREE"
    and b: "scheduleRef b = sid" "seatSet b = seatNos" "bookingState b = PENDING"
    and e': "inventory e' = setSeats (inventory eng) sid seatNos HELD"
            "bookings e' = bookings eng @ [b]"
  shows "engineOk e'"
proof -
  let ?bs = "bookings eng"
  from ok have no: "noOverbooking eng" and sm: "seatsMatchState eng"
    by (simp_all add: engineOk_def)
  have apart: "set seatNos \<inter> set (seatSet (?bs ! i)) = {}"
    if "i < length ?bs" "live (?bs ! i)" "scheduleRef (?bs ! i) = sid" for i
  proof (rule ccontr)
    assume "set seatNos \<inter> set (seatSet (?bs ! i)) \<noteq> {}"
    then obtain n where n: "n \<in> set seatNos" "n \<in> set (seatSet (?bs ! i))" by blast
    from live_seats_taken [OF sm that(1) that(2) n(2)] that(3)
    have "inventory eng sid n \<noteq> FREE" by simp
    with free n(1) show False by simp
  qed
  have "noOverbooking e'"
    unfolding noOverbooking_def e'(2)
  proof (intro allI impI)
    fix i j
    assume i: "i < length (?bs @ [b])" and j: "j < length (?bs @ [b])"
      and h: "i \<noteq> j \<and> live ((?bs @ [b]) ! i) \<and> live ((?bs @ [b]) ! j) \<and>
              scheduleRef ((?bs @ [b]) ! i) = scheduleRef ((?bs @ [b]) ! j)"
    show "set (seatSet ((?bs @ [b]) ! i)) \<inter> set (seatSet ((?bs @ [b]) ! j)) = {}"
    proof (cases "i < length ?bs")
      case iold: True
      show ?thesis
      proof (cases "j < length ?bs")
        case True
        with iold h no show ?thesis
          by (simp add: noOverbooking_def nth_append)
      next
        case False
        with j have "j = length ?bs" by simp
        with iold h b apart [of i] show ?thesis
          by (auto simp add: nth_append)
      qed
    next
      case False
      with i have ieq: "i = length ?bs" by simp
      with h j have "j < length ?bs" by simp
      with ieq h b apart [of j] show ?thesis
        by (auto simp add: nth_append)
    qed
  qed
  moreover have "seatsMatchState e'"
    unfolding seatsMatchState_def e'
  proof (intro allI impI)
    fix i
    assume i: "i < length (?bs @ [b])"
    show "(bookingState ((?bs @ [b]) ! i) = PENDING \<longrightarrow>
            (\<forall>n \<in> set (seatSet ((?bs @ [b]) ! i)).
               setSeats (inventory eng) sid seatNos HELD (scheduleRef ((?bs @ [b]) ! i)) n = HELD)) \<and>
          (bookingState ((?bs @ [b]) ! i) = CONFIRMED \<longrightarrow>
            (\<forall>n \<in> set (seatSet ((?bs @ [b]) ! i)).
               setSeats (inventory eng) sid seatNos HELD (scheduleRef ((?bs @ [b]) ! i)) n = BOOKED))"
    proof (cases "i < length ?bs")
      case True
      have untouched: "setSeats (inventory eng) sid seatNos HELD (scheduleRef (?bs ! i)) n
                         = inventory eng (scheduleRef (?bs ! i)) n"
        if "live (?bs ! i)" "n \<in> set (seatSet (?bs ! i))" for n
      proof (cases "scheduleRef (?bs ! i) = sid")
        case same: True
        from apart [OF True that(1) same] that(2) have "n \<notin> set seatNos" by blast
        then show ?thesis by (simp add: setSeats_apply)
      next
        case False
        then show ?thesis by (simp add: setSeats_apply)
      qed
      from sm True have old:
        "bookingState (?bs ! i) = PENDING \<longrightarrow>
           (\<forall>n \<in> set (seatSet (?bs ! i)). inventory eng (scheduleRef (?bs ! i)) n = HELD)"
        "bookingState (?bs ! i) = CONFIRMED \<longrightarrow>
           (\<forall>n \<in> set (seatSet (?bs ! i)). inventory eng (scheduleRef (?bs ! i)) n = BOOKED)"
        by (simp_all add: seatsMatchState_def)
      with True untouched show ?thesis
        by (simp add: nth_append live_def)
    next
      case False
      with i have "i = length ?bs" by simp
      with b show ?thesis
        by (simp add: setSeats_apply)
    qed
  qed
  ultimately show ?thesis by (simp add: engineOk_def)
qed

lemma tryHold_eq:
  "tryHold occ sid seatNos =
     (if \<forall>n \<in> set seatNos. occ sid n = FREE
      then HoldGranted (setSeats occ sid seatNos HELD)
      else HoldRejected (filter (\<lambda>n. occ sid n \<noteq> FREE) seatNos))"
  by (auto simp add: tryHold_def Let_def filter_empty_conv)

lemma reserve_invalid:
  assumes "\<not> validSeatSet eng sid seatNos"
  shows "reserve eng sid seatNos who =
           (\<lparr> reservedOn = sid, requested = seatNos, requester = who,
               outcome = REJECTED InvalidSeatSet \<rparr>,
            eng\<lparr>ledger := ledger eng @
                   [\<lparr> reservedOn = sid, requested = seatNos, requester = who,
                       outcome = REJECTED InvalidSeatSet \<rparr>]\<rparr>)"
  using assms by (simp add: reserve_def Let_def)

lemma reserve_granted:
  assumes "validSeatSet eng sid seatNos" "\<forall>n \<in> set seatNos. inventory eng sid n = FREE"
  shows "reserve eng sid seatNos who =
           (\<lparr> reservedOn = sid, requested = seatNos, requester = who, outcome = GRANTED \<rparr>,
            eng\<lparr>inventory := setSeats (inventory eng) sid seatNos HELD,
                 ledger := ledger eng @
                   [\<lparr> reservedOn = sid, requested = seatNos, requester = who,
                       outcome = GRANTED \<rparr>]\<rparr>)"
  using assms by (simp add: reserve_def Let_def tryHold_eq)

lemma reserve_taken:
  assumes "validSeatSet eng sid seatNos" "\<not> (\<forall>n \<in> set seatNos. inventory eng sid n = FREE)"
  shows "reserve eng sid seatNos who =
           (\<lparr> reservedOn = sid, requested = seatNos, requester = who,
               outcome = REJECTED (SeatsTaken
                 (filter (\<lambda>n. inventory eng sid n \<noteq> FREE) seatNos)) \<rparr>,
            eng\<lparr>ledger := ledger eng @
                   [\<lparr> reservedOn = sid, requested = seatNos, requester = who,
                       outcome = REJECTED (SeatsTaken
                         (filter (\<lambda>n. inventory eng sid n \<noteq> FREE) seatNos)) \<rparr>]\<rparr>)"
  using assms by (simp add: reserve_def Let_def tryHold_eq)

text \<open>The three ways a request that passed the schedule checks can end.\<close>

lemma openBooking_invalid:
  assumes "schedules eng sid = Some sc" "scheduleStatus sc = ACTIVE"
    "length seatNos = count" "\<not> validSeatSet eng sid seatNos"
  shows "openBooking eng now sid seatNos count who payBy =
           (Inl InvalidSeatRequest,
            eng\<lparr>ledger := ledger eng @
                   [\<lparr> reservedOn = sid, requested = seatNos, requester = who,
                       outcome = REJECTED InvalidSeatSet \<rparr>]\<rparr>)"
  using assms by (simp add: openBooking_def reserve_invalid)

lemma openBooking_taken:
  assumes "schedules eng sid = Some sc" "scheduleStatus sc = ACTIVE"
    "length seatNos = count" "validSeatSet eng sid seatNos"
    "\<not> (\<forall>n \<in> set seatNos. inventory eng sid n = FREE)"
  shows "openBooking eng now sid seatNos count who payBy =
           (Inl (SeatsUnavailable (filter (\<lambda>n. inventory eng sid n \<noteq> FREE) seatNos)),
            eng\<lparr>ledger := ledger eng @
                   [\<lparr> reservedOn = sid, requested = seatNos, requester = who,
                       outcome = REJECTED (SeatsTaken
                         (filter (\<lambda>n. inventory eng sid n \<noteq> FREE) seatNos)) \<rparr>]\<rparr>)"
  using assms by (simp add: openBooking_def reserve_taken)

lemma openBooking_free:
  assumes "schedules eng sid = Some sc" "scheduleStatus sc = ACTIVE"
    "length seatNos = count" "validSeatSet eng sid seatNos"
    "\<forall>n \<in> set seatNos. inventory eng sid n = FREE"
  shows "openBooking eng now sid seatNos count who payBy =
           (Inr (pendingBooking (length (bookings eng)) sc now sid seatNos who payBy),
            eng\<lparr>inventory := setSeats (inventory eng) sid seatNos HELD,
                 ledger := ledger eng @
                   [\<lparr> reservedOn = sid, requested = seatNos, requester = who,
                       outcome = GRANTED \<rparr>],
                 bookings := bookings eng @
                   [pendingBooking (length (bookings eng)) sc now sid seatNos who payBy]\<rparr>)"
  using assms by (simp add: openBooking_def reserve_granted Let_def)

lemma openBooking_cases:
  obtains (refused) err where
      "openBooking eng now sid seatNos count who payBy = (Inl err, eng)"
  | (rejected) err r where
      "openBooking eng now sid seatNos count who payBy
         = (Inl err, eng\<lparr>ledger := ledger eng @ [r]\<rparr>)"
  | (granted) sc r where
      "schedules eng sid = Some sc" "scheduleStatus sc = ACTIVE" "length seatNos = count"
      "validSeatSet eng sid seatNos" "\<forall>n \<in> set seatNos. inventory eng sid n = FREE"
      "openBooking eng now sid seatNos count who payBy =
         (Inr (pendingBooking (length (bookings eng)) sc now sid seatNos who payBy),
          eng\<lparr>inventory := setSeats (inventory eng) sid seatNos HELD,
               ledger := ledger eng @ [r],
               bookings := bookings eng @
                 [pendingBooking (length (bookings eng)) sc now sid seatNos who payBy]\<rparr>)"
proof (cases "schedules eng sid")
  case None
  then have "openBooking eng now sid seatNos count who payBy = (Inl ScheduleNotFound, eng)"
    by (simp add: openBooking_def)
  then show ?thesis by (rule refused)
next
  case (Some sc)
  show ?thesis
  proof (cases "scheduleStatus sc = ACTIVE \<and> length seatNos = count")
    case False
    with Some have "\<exists>err. openBooking eng now sid seatNos count who payBy = (Inl err, eng)"
      by (auto simp add: openBooking_def)
    then show ?thesis using refused by blast
  next
    case True
    then have a: "scheduleStatus sc = ACTIVE" "length seatNos = count" by simp_all
    show ?thesis
    proof (cases "validSeatSet eng sid seatNos")
      case False
      from openBooking_invalid [OF Some a False] show ?thesis by (rule rejected)
    next
      case valid: True
      show ?thesis
      proof (cases "\<forall>n \<in> set seatNos. inventory eng sid n = FREE")
        case False
        from openBooking_taken [OF Some a valid False] show ?thesis by (rule rejected)
      next
        case True
        from Some a valid True openBooking_free [OF Some a valid True]
        show ?thesis by (rule granted)
      qed
    qed
  qed
qed

lemma openBooking_ok:
  assumes "engineOk eng"
  shows "engineOk (snd (openBooking eng now sid seatNos count who payBy))"
proof (cases rule: openBooking_cases [of eng now sid seatNos count who payBy])
  case (refused err)
  with assms show ?thesis by simp
next
  case (rejected err r)
  have "engineOk (eng\<lparr>ledger := ledger eng @ [r]\<rparr>) = engineOk eng"
    by (rule engineOk_cong) simp_all
  with assms rejected show ?thesis by simp
next
  case (granted sc r)
  let ?b = "pendingBooking (length (bookings eng)) sc now sid seatNos who payBy"
  let ?e = "eng\<lparr>inventory := setSeats (inventory eng) sid seatNos HELD,
                ledger := ledger eng @ [r], bookings := bookings eng @ [?b]\<rparr>"
  have "engineOk ?e"
  proof (rule add_pending_ok [OF assms granted(5)])
    show "scheduleRef ?b = sid" "seatSet ?b = seatNos" "bookingState ?b = PENDING"
      by (simp_all add: pendingBooking_def)
    show "inventory ?e = setSeats (inventory eng) sid seatNos HELD" by simp
    show "bookings ?e = bookings eng @ [?b]" by simp
  qed
  with granted(6) show ?thesis by simp
qed

subsection \<open>Lifecycle transitions\<close>

lemma lifecycle_cases:
  assumes "lifecycle sc now b ev = Inr (target, eff, paid)"
  shows "(bookingState b = PENDING \<and> target = CONFIRMED \<and> eff = CommitSeats) \<or>
         (live b \<and> target = CANCELLED \<and> eff = ReleaseSeats) \<or>
         (bookingState b = CONFIRMED \<and> target = COMPLETED \<and> eff = NoSideEffect)"
  using assms by (cases "bookingState b"; cases ev) (auto simp add: live_def split: if_splits)

lemma update_ok:
  assumes ok: "engineOk eng"
    and bid: "bid < length (bookings eng)"
    and alive: "live (bookings eng ! bid)"
    and same: "scheduleRef b' = scheduleRef (bookings eng ! bid)"
              "seatSet b' = seatSet (bookings eng ! bid)"
    and e': "bookings e' = (bookings eng)[bid := b']"
    and outside: "\<And>s n. \<not> (s = scheduleRef b' \<and> n \<in> set (seatSet b'))
                    \<Longrightarrow> inventory e' s n = inventory eng s n"
    and own: "bookingState b' = PENDING \<Longrightarrow>
                \<forall>n \<in> set (seatSet b'). inventory e' (scheduleRef b') n = HELD"
             "bookingState b' = CONFIRMED \<Longrightarrow>
                \<forall>n \<in> set (seatSet b'). inventory e' (scheduleRef b') n = BOOKED"
  shows "engineOk e'"
proof -
  let ?bs = "bookings eng"
  let ?b = "?bs ! bid"
  from ok have no: "noOverbooking eng" and sm: "seatsMatchState eng"
    by (simp_all add: engineOk_def)
  have apart: "set (seatSet ?b) \<inter> set (seatSet (?bs ! i)) = {}"
    if "i < length ?bs" "i \<noteq> bid" "live (?bs ! i)" "scheduleRef (?bs ! i) = scheduleRef ?b" for i
    using no bid alive that by (simp add: noOverbooking_def)
  have "noOverbooking e'"
    unfolding noOverbooking_def e'
  proof (intro allI impI)
    fix i j
    assume i: "i < length (?bs[bid := b'])" and j: "j < length (?bs[bid := b'])"
      and h: "i \<noteq> j \<and> live (?bs[bid := b'] ! i) \<and> live (?bs[bid := b'] ! j) \<and>
              scheduleRef (?bs[bid := b'] ! i) = scheduleRef (?bs[bid := b'] ! j)"
    show "set (seatSet (?bs[bid := b'] ! i)) \<inter> set (seatSet (?bs[bid := b'] ! j)) = {}"
    proof (cases "i = bid")
      case True
      with h have jb: "j \<noteq> bid" by simp
      with True h i j same apart [of j] show ?thesis
        by (simp add: nth_list_update)
    next
      case ib: False
      show ?thesis
      proof (cases "j = bid")
        case True
        with ib h i j same apart [of i] show ?thesis
          by (auto simp add: nth_list_update)
      next
        case False
        with ib h i j no show ?thesis
          by (simp add: noOverbooking_def nth_list_update)
      qed
    qed
  qed
  moreover have "seatsMatchState e'"
    unfolding seatsMatchState_def e'
  proof (intro allI impI)
    fix i
    assume i: "i < length (?bs[bid := b'])"
    show "(bookingState (?bs[bid := b'] ! i) = PENDING \<longrightarrow>
            (\<forall>n \<in> set (seatSet (?bs[bid := b'] ! i)).
               inventory e' (scheduleRef (?bs[bid := b'] ! i)) n = HELD)) \<and>
          (bookingState (?bs[bid := b'] ! i) = CONFIRMED \<longrightarrow>
            (\<forall>n \<in> set (seatSet (?bs[bid := b'] ! i)).
               inventory e' (scheduleRef (?bs[bid := b'] ! i)) n = BOOKED))"
    proof (cases "i = bid")
      case True
      with bid own show ?thesis by simp
    next
      case False
      have untouched: "inventory e' (scheduleRef (?bs ! i)) n
                         = inventory eng (scheduleRef (?bs ! i)) n"
        if "live (?bs ! i)" "n \<in> set (seatSet (?bs ! i))" for n
      proof (rule outside)
        show "\<not> (scheduleRef (?bs ! i) = scheduleRef b' \<and> n \<in> set (seatSet b'))"
        proof
          assume a: "scheduleRef (?bs ! i) = scheduleRef b' \<and> n \<in> set (seatSet b')"
          with same i False that(1) have "set (seatSet ?b) \<inter> set (seatSet (?bs ! i)) = {}"
            by (intro apart) simp_all
          with a same that(2) show False by auto
        qed
      qed
      from sm i have old:
        "bookingState (?bs ! i) = PENDING \<longrightarrow>
           (\<forall>n \<in> set (seatSet (?bs ! i)). inventory eng (scheduleRef (?bs ! i)) n = HELD)"
        "bookingState (?bs ! i) = CONFIRMED \<longrightarrow>
           (\<forall>n \<in> set (seatSet (?bs ! i)). inventory eng (scheduleRef (?bs ! i)) n = BOOKED)"
        by (simp_all add: seatsMatchState_def)
      with False untouched show ?thesis
        by (simp add: live_def)
    qed
  qed
  ultimately show ?thesis by (simp add: engineOk_def)
qed

lemma transition_ok:
  assumes ok: "engineOk eng"
  shows "engineOk (snd (transition eng now bid ev))"
proof (cases "bid < length (bookings eng)")
  case False
  with ok show ?thesis by (simp add: transition_def)
next
  case bid: True
  let ?b = "bookings eng ! bid"
  show ?thesis
  proof (cases "schedules eng (scheduleRef ?b)")
    case None
    with bid ok show ?thesis by (simp add: transition_def Let_def)
  next
    case (Some sc)
    show ?thesis
    proof (cases "lifecycle sc now ?b ev")
      case (Inl err)
      with bid Some ok show ?thesis by (simp add: transition_def Let_def)
    next
      case (Inr step)
      obtain target eff paid where step: "step = (target, eff, paid)"
        by (cases step)
      let ?b' = "?b\<lparr>bookingState := target, payStatus := paid\<rparr>"
      show ?thesis
      proof (cases "applySideEffect (inventory eng) (scheduleRef ?b) (seatSet ?b) eff")
        case (Inl err)
        with bid Some Inr step ok show ?thesis by (simp add: transition_def Let_def)
      next
        case eff: (Inr occ')
        let ?e = "eng\<lparr>inventory := occ', bookings := (bookings eng)[bid := ?b']\<rparr>"
        from bid Some Inr step eff have res: "snd (transition eng now bid ev) = ?e"
          by (simp add: transition_def Let_def)
        from lifecycle_cases Inr step have kinds:
          "(bookingState ?b = PENDING \<and> target = CONFIRMED \<and> eff = CommitSeats) \<or>
           (live ?b \<and> target = CANCELLED \<and> eff = ReleaseSeats) \<or>
           (bookingState ?b = CONFIRMED \<and> target = COMPLETED \<and> eff = NoSideEffect)"
          by blast
        then have alive: "live ?b" by (auto simp add: live_def)
        from kinds eff have occ':
          "(target = CONFIRMED \<and>
              occ' = setSeats (inventory eng) (scheduleRef ?b) (seatSet ?b) BOOKED) \<or>
           (target = CANCELLED \<and>
              occ' = setSeats (inventory eng) (scheduleRef ?b) (seatSet ?b) FREE) \<or>
           (target = COMPLETED \<and> occ' = inventory eng)"
          by (auto simp add: applySideEffect_def commit_def release_def split: if_splits)
        have "engineOk ?e"
        proof (rule update_ok [OF ok bid alive])
          show "scheduleRef ?b' = scheduleRef ?b" "seatSet ?b' = seatSet ?b" by simp_all
          show "bookings ?e = (bookings eng)[bid := ?b']" by simp
          show "inventory ?e s n = inventory eng s n"
            if "\<not> (s = scheduleRef ?b' \<and> n \<in> set (seatSet ?b'))" for s n
            using occ' that by (auto simp add: setSeats_apply)
          show "\<forall>n \<in> set (seatSet ?b'). inventory ?e (scheduleRef ?b') n = HELD"
            if "bookingState ?b' = PENDING"
            using occ' that by auto
          show "\<forall>n \<in> set (seatSet ?b'). inventory ?e (scheduleRef ?b') n = BOOKED"
            if "bookingState ?b' = CONFIRMED"
            using occ' that by (auto simp add: setSeats_apply)
        qed
        with res show ?thesis by simp
      qed
    qed
  qed
qed

subsection \<open>The orchestrator and runs\<close>

lemma createBooking_refused:
  assumes "openBooking eng now sid seatNos count who payBy = (Inl err, e1)"
  shows "createBooking charge eng now sid seatNos count who payBy = (Inl err, e1)"
  using assms by (simp add: createBooking_def)

lemma createBooking_declined:
  assumes "schedules eng sid = Some sc" "scheduleStatus sc = ACTIVE" "length seatNos = count"
    "validSeatSet eng sid seatNos" "\<forall>n \<in> set seatNos. inventory eng sid n = FREE"
    "payBy \<noteq> PayLater" "charge (seatPrice sc * int (length seatNos)) payBy who = Declined"
  shows "createBooking charge eng now sid seatNos count who payBy =
           (Inl PaymentFailed,
            eng\<lparr>inventory := inventory eng,
                 ledger := ledger eng @
                   [\<lparr> reservedOn = sid, requested = seatNos, requester = who,
                       outcome = GRANTED \<rparr>],
                 bookings := bookings eng\<rparr>)"
proof -
  note opened = openBooking_free [OF assms(1-5)]
  have undo: "release (setSeats (inventory eng) sid seatNos HELD) sid seatNos = inventory eng"
    using assms(5) by (rule release_after_hold)
  show ?thesis
  proof (cases payBy)
    case PayLater
    with assms(6) show ?thesis by simp
  next
    case MobileMoney
    with assms(7) have "charge (seatPrice sc * int (length seatNos)) MobileMoney who = Declined"
      by simp
    with undo show ?thesis
      unfolding MobileMoney
      by (simp add: createBooking_def opened pendingBooking_def)
  next
    case Card
    with assms(7) have "charge (seatPrice sc * int (length seatNos)) Card who = Declined"
      by simp
    with undo show ?thesis
      unfolding Card
      by (simp add: createBooking_def opened pendingBooking_def)
  qed
qed

lemma createBooking_ok:
  assumes ok: "engineOk eng"
  shows "engineOk (snd (createBooking charge eng now sid seatNos count who payBy))"
proof (cases rule: openBooking_cases [of eng now sid seatNos count who payBy])
  case (refused err)
  from createBooking_refused [OF refused] ok show ?thesis by simp
next
  case (rejected err r)
  have "engineOk (eng\<lparr>ledger := ledger eng @ [r]\<rparr>) = engineOk eng"
    by (rule engineOk_cong) simp_all
  with createBooking_refused [OF rejected] ok show ?thesis by simp
next
  case (granted sc r)
  let ?b = "pendingBooking (length (bookings eng)) sc now sid seatNos who payBy"
  let ?e2 = "eng\<lparr>inventory := setSeats (inventory eng) sid seatNos HELD,
                 ledger := ledger eng @ [r], bookings := bookings eng @ [?b]\<rparr>"
  from openBooking_ok [OF ok, of now sid seatNos count who payBy] granted(6)
  have ok2: "engineOk ?e2" by simp
  have after: "engineOk (snd (transition ?e2 now (bookingIdent ?b) ev))" for ev
    using ok2 by (rule transition_ok)
  have undone: "engineOk (?e2\<lparr>inventory := release (inventory ?e2) sid seatNos,
                             bookings := butlast (bookings ?e2)\<rparr>)"
  proof -
    have "engineOk (?e2\<lparr>inventory := release (inventory ?e2) sid seatNos,
                         bookings := butlast (bookings ?e2)\<rparr>) = engineOk eng"
      by (rule engineOk_cong) (simp_all add: release_after_hold [where occ = "inventory eng" and sid = sid and seatNos = seatNos, OF granted(5)])
    with ok show ?thesis by simp
  qed
  show ?thesis
  proof (cases payBy)
    case PayLater
    with granted(6) after [of PayLaterAccepted] show ?thesis
      by (simp add: createBooking_def)
  next
    case MobileMoney
    with granted(6) after [of PaymentConfirmed] undone show ?thesis
      by (cases "charge (total ?b) MobileMoney who") (simp_all add: createBooking_def)
  next
    case Card
    with granted(6) after [of PaymentConfirmed] undone show ?thesis
      by (cases "charge (total ?b) Card who") (simp_all add: createBooking_def)
  qed
qed

lemma cancelBookingCore_ok:
  "engineOk eng \<Longrightarrow> engineOk (snd (cancelBookingCore eng now bid allowed))"
  by (simp add: cancelBookingCore_def transition_ok)

lemma serve_ok:
  assumes "engineOk eng"
  shows "engineOk (serve charge eng timed)"
proof (cases timed)
  case (Pair now req)
  with assms show ?thesis
    by (cases req)
       (simp_all add: serve_def createBooking_ok openBooking_ok cancelBookingCore_ok
          transition_ok)
qed

lemma runEngine_ok:
  "engineOk eng \<Longrightarrow> engineOk (runEngine charge eng reqs)"
  unfolding runEngine_def
  by (induction reqs arbitrary: eng) (simp_all add: serve_ok)

lemma grant_avoids_live:
  assumes "engineOk eng" "tryHold (inventory eng) sid seatNos = HoldGranted occ'"
    "i < length (bookings eng)" "live (bookings eng ! i)" "scheduleRef (bookings eng ! i) = sid"
  shows "set seatNos \<inter> set (seatSet (bookings eng ! i)) = {}"
proof (rule ccontr)
  assume "set seatNos \<inter> set (seatSet (bookings eng ! i)) \<noteq> {}"
  then obtain n where n: "n \<in> set seatNos" "n \<in> set (seatSet (bookings eng ! i))" by blast
  from assms(1) have "seatsMatchState eng" by (simp add: engineOk_def)
  from live_seats_taken [OF this assms(3,4) n(2)] assms(5)
  have "inventory eng sid n \<noteq> FREE" by simp
  moreover from assms(2) n(1) have "inventory eng sid n = FREE"
    by (simp add: tryHold_granted_iff)
  ultimately show False by simp
qed

text \<open>
  C1. In every state the engine reaches from its start by serving requests (complete
  \<open>createBooking\<close> calls, bookings left pending, cancellations and lifecycle events,
  whatever the payment capability answers), two different bookings of one schedule that
  are \<open>PENDING\<close> or \<open>CONFIRMED\<close> share no seat; and a hold that would be granted in
  such a state covers no seat of a live booking of that schedule, so that no two grants
  overlap.
\<close>

theorem C1_no_overbooking:
  "noOverbooking (runEngine charge (startEngine scheds) reqs) \<and>
   (\<forall>sid seatNos occ' i.
      tryHold (inventory (runEngine charge (startEngine scheds) reqs)) sid seatNos
        = HoldGranted occ' \<and>
      i < length (bookings (runEngine charge (startEngine scheds) reqs)) \<and>
      live (bookings (runEngine charge (startEngine scheds) reqs) ! i) \<and>
      scheduleRef (bookings (runEngine charge (startEngine scheds) reqs) ! i) = sid
      \<longrightarrow> set seatNos
            \<inter> set (seatSet (bookings (runEngine charge (startEngine scheds) reqs) ! i)) = {})"
proof -
  have ok: "engineOk (runEngine charge (startEngine scheds) reqs)"
    by (rule runEngine_ok) (rule engineOk_start)
  then have "noOverbooking (runEngine charge (startEngine scheds) reqs)"
    by (simp add: engineOk_def)
  moreover from ok grant_avoids_live have
    "\<forall>sid seatNos occ' i.
      tryHold (inventory (runEngine charge (startEngine scheds) reqs)) sid seatNos
        = HoldGranted occ' \<and>
      i < length (bookings (runEngine charge (startEngine scheds) reqs)) \<and>
      live (bookings (runEngine charge (startEngine scheds) reqs) ! i) \<and>
      scheduleRef (bookings (runEngine charge (startEngine scheds) reqs) ! i) = sid
      \<longrightarrow> set seatNos
            \<inter> set (seatSet (bookings (runEngine charge (startEngine scheds) reqs) ! i)) = {}"
    by blast
  ultimately show ?thesis by blast
qed

subsection \<open>The scenario of the specification, evaluated\<close>

lemmas engine_eval =
  runEngine_def serve_def createBooking_def openBooking_def reserve_def validSeatSet_def
  tryHold_def transition_def applySideEffect_def commit_def release_def setSeats_def
  pendingBooking_def startEngine_def exampleSchedule_def alwaysPaid_def alwaysDeclined_def
  cancelBookingCore_def exampleStart_def exampleRequests_def Let_def cancellationWindow_def

lemma example_run:
  "map seatSet (bookings (runEngine alwaysPaid exampleStart exampleRequests)) = [[1], [2]]"
  "map bookingState (bookings (runEngine alwaysPaid exampleStart exampleRequests))
     = [CONFIRMED, CONFIRMED]"
  "map scheduleRef (bookings (runEngine alwaysPaid exampleStart exampleRequests))
     = [''S1'', ''S1'']"
  by (simp_all add: engine_eval)

theorem C1_no_overbooking_witness:
  "map bookingState (bookings (runEngine alwaysPaid exampleStart exampleRequests))
     = [CONFIRMED, CONFIRMED] \<and>
   map seatSet (bookings (runEngine alwaysPaid exampleStart exampleRequests)) = [[1], [2]] \<and>
   set (seatSet (bookings (runEngine alwaysPaid exampleStart exampleRequests) ! 0))
     \<inter> set (seatSet (bookings (runEngine alwaysPaid exampleStart exampleRequests) ! 1)) = {}"
proof -
  let ?E = "runEngine alwaysPaid exampleStart exampleRequests"
  from C1_no_overbooking [of alwaysPaid "[''S1'' \<mapsto> exampleSchedule 2]" exampleRequests]
  have no: "noOverbooking ?E"
    by (simp add: exampleStart_def)
  from example_run(1) have len: "length (bookings ?E) = 2"
    by (metis length_map length_Cons list.size(3) One_nat_def Suc_1)
  from example_run(2) len have st: "live (bookings ?E ! 0)" "live (bookings ?E ! 1)"
    by (simp_all add: live_def list_eq_iff_nth_eq nth_Cons')
  from example_run(3) len have sch: "scheduleRef (bookings ?E ! 0) = scheduleRef (bookings ?E ! 1)"
    by (simp add: list_eq_iff_nth_eq nth_Cons')
  from no len st sch
  have "set (seatSet (bookings ?E ! 0)) \<inter> set (seatSet (bookings ?E ! 1)) = {}"
    unfolding noOverbooking_def by simp
  with example_run show ?thesis by simp
qed

subsection \<open>All-or-nothing holds\<close>

text \<open>
  C2. \<open>tryHold\<close> grants exactly when every requested seat is \<open>FREE\<close>. A grant turns the
  requested seats of that schedule to \<open>HELD\<close> and leaves every other seat as it was. A
  rejection returns no inventory, so no seat changes, and lists the requested seats
  that were not free. \<open>createBooking\<close> then answers \<open>SeatsUnavailable\<close> with that list
  as an error value and leaves inventory, bookings and schedules as they were, so the
  caller can ask again.
\<close>

theorem C2_tryHold_all_or_nothing:
  "((\<exists>occ'. tryHold occ sid seatNos = HoldGranted occ') = (\<forall>n \<in> set seatNos. occ sid n = FREE)) \<and>
   (\<forall>occ'. tryHold occ sid seatNos = HoldGranted occ' \<longrightarrow>
      (\<forall>s n. occ' s n = (if s = sid \<and> n \<in> set seatNos then HELD else occ s n))) \<and>
   (\<not> (\<forall>n \<in> set seatNos. occ sid n = FREE) \<longrightarrow>
      (\<exists>conflicting. tryHold occ sid seatNos = HoldRejected conflicting \<and>
         conflicting \<noteq> [] \<and>
         set conflicting = {n \<in> set seatNos. occ sid n \<noteq> FREE})) \<and>
   (\<forall>sc. schedules eng sid = Some sc \<and> scheduleStatus sc = ACTIVE \<and>
         length seatNos = count \<and> validSeatSet eng sid seatNos \<and>
         \<not> (\<forall>n \<in> set seatNos. inventory eng sid n = FREE) \<longrightarrow>
      fst (createBooking charge eng now sid seatNos count who payBy)
        = Inl (SeatsUnavailable (filter (\<lambda>n. inventory eng sid n \<noteq> FREE) seatNos)) \<and>
      inventory (snd (createBooking charge eng now sid seatNos count who payBy))
        = inventory eng \<and>
      bookings (snd (createBooking charge eng now sid seatNos count who payBy))
        = bookings eng \<and>
      schedules (snd (createBooking charge eng now sid seatNos count who payBy))
        = schedules eng)"
proof (intro conjI allI impI)
  show "(\<exists>occ'. tryHold occ sid seatNos = HoldGranted occ') = (\<forall>n \<in> set seatNos. occ sid n = FREE)"
    by (simp add: tryHold_eq)
next
  fix occ' s n
  assume "tryHold occ sid seatNos = HoldGranted occ'"
  then have "occ' = setSeats occ sid seatNos HELD"
    by (simp add: tryHold_granted_iff)
  then show "occ' s n = (if s = sid \<and> n \<in> set seatNos then HELD else occ s n)"
    by (simp add: setSeats_apply)
next
  assume "\<not> (\<forall>n \<in> set seatNos. occ sid n = FREE)"
  then have "tryHold occ sid seatNos = HoldRejected (filter (\<lambda>n. occ sid n \<noteq> FREE) seatNos)"
    and "filter (\<lambda>n. occ sid n \<noteq> FREE) seatNos \<noteq> []"
    by (simp_all add: tryHold_eq filter_empty_conv)
  then show "\<exists>conflicting. tryHold occ sid seatNos = HoldRejected conflicting \<and>
         conflicting \<noteq> [] \<and> set conflicting = {n \<in> set seatNos. occ sid n \<noteq> FREE}"
    by auto
next
  fix sc
  assume a: "schedules eng sid = Some sc \<and> scheduleStatus sc = ACTIVE \<and>
         length seatNos = count \<and> validSeatSet eng sid seatNos \<and>
         \<not> (\<forall>n \<in> set seatNos. inventory eng sid n = FREE)"
  then have a1: "schedules eng sid = Some sc" and a2: "scheduleStatus sc = ACTIVE"
    and a3: "length seatNos = count" and a4: "validSeatSet eng sid seatNos"
    and a5: "\<not> (\<forall>n \<in> set seatNos. inventory eng sid n = FREE)"
    by simp_all
  have "openBooking eng now sid seatNos count who payBy =
           (Inl (SeatsUnavailable (filter (\<lambda>n. inventory eng sid n \<noteq> FREE) seatNos)),
            eng\<lparr>ledger := ledger eng @
                   [\<lparr> reservedOn = sid, requested = seatNos, requester = who,
                       outcome = REJECTED (SeatsTaken
                         (filter (\<lambda>n. inventory eng sid n \<noteq> FREE) seatNos)) \<rparr>]\<rparr>)"
    by (rule openBooking_taken [OF a1 a2 a3 a4 a5])
  then have r: "createBooking charge eng now sid seatNos count who payBy =
           (Inl (SeatsUnavailable (filter (\<lambda>n. inventory eng sid n \<noteq> FREE) seatNos)),
            eng\<lparr>ledger := ledger eng @
                   [\<lparr> reservedOn = sid, requested = seatNos, requester = who,
                       outcome = REJECTED (SeatsTaken
                         (filter (\<lambda>n. inventory eng sid n \<noteq> FREE) seatNos)) \<rparr>]\<rparr>)"
    by (rule createBooking_refused)
  show "fst (createBooking charge eng now sid seatNos count who payBy)
        = Inl (SeatsUnavailable (filter (\<lambda>n. inventory eng sid n \<noteq> FREE) seatNos))"
    by (simp add: r)
  show "inventory (snd (createBooking charge eng now sid seatNos count who payBy))
        = inventory eng"
    by (simp add: r)
  show "bookings (snd (createBooking charge eng now sid seatNos count who payBy))
        = bookings eng"
    by (simp add: r)
  show "schedules (snd (createBooking charge eng now sid seatNos count who payBy))
        = schedules eng"
    by (simp add: r)
qed

theorem C2_tryHold_all_or_nothing_witness:
  "tryHold (inventory (runEngine alwaysPaid exampleStart [hd exampleRequests])) ''S1'' [1, 2]
     = HoldRejected [1] \<and>
   fst (createBooking alwaysPaid (runEngine alwaysPaid exampleStart [hd exampleRequests])
          1790000000001 ''S1'' [1, 2] 2 (RegisteredUser ''B'') Card)
     = Inl (SeatsUnavailable [1]) \<and>
   inventory (snd (createBooking alwaysPaid
                     (runEngine alwaysPaid exampleStart [hd exampleRequests])
                     1790000000001 ''S1'' [1, 2] 2 (RegisteredUser ''B'') Card)) ''S1'' 2
     = FREE"
proof -
  let ?E = "runEngine alwaysPaid exampleStart [hd exampleRequests]"
  have inv: "inventory ?E ''S1'' 1 = BOOKED" "inventory ?E ''S1'' 2 = FREE"
    by (simp_all add: engine_eval)
  have pre: "schedules ?E ''S1'' = Some (exampleSchedule 2)"
    "scheduleStatus (exampleSchedule 2) = ACTIVE" "length [1, 2 :: nat] = 2"
    "validSeatSet ?E ''S1'' [1, 2]"
    by (simp_all add: engine_eval)
  from inv have taken: "\<not> (\<forall>n \<in> set [1, 2]. inventory ?E ''S1'' n = FREE)"
    by simp
  from inv have conflicts: "filter (\<lambda>n. inventory ?E ''S1'' n \<noteq> FREE) [1, 2] = [1]"
    by simp
  note all = C2_tryHold_all_or_nothing [of "inventory ?E" "''S1''" "[1, 2]" ?E 2 alwaysPaid
      1790000000001 "RegisteredUser ''B''" Card]
  from all taken obtain c where c: "tryHold (inventory ?E) ''S1'' [1, 2] = HoldRejected c"
    by blast
  then have "c = [1]"
    using conflicts by (simp add: tryHold_rejected_iff)
  moreover from all pre taken have
    "fst (createBooking alwaysPaid ?E 1790000000001 ''S1'' [1, 2] 2 (RegisteredUser ''B'') Card)
       = Inl (SeatsUnavailable (filter (\<lambda>n. inventory ?E ''S1'' n \<noteq> FREE) [1, 2]))"
    "inventory (snd (createBooking alwaysPaid ?E 1790000000001 ''S1'' [1, 2] 2
                       (RegisteredUser ''B'') Card))
       = inventory ?E"
    by blast+
  ultimately show ?thesis
    using c conflicts inv by simp
qed

subsection \<open>Cancellation window\<close>

text \<open>
  C3. For a \<open>CONFIRMED\<close> booking whose schedule is known, a cancellation by an allowed
  passenger succeeds exactly when more than 24 hours (86400000 ms) remain until
  departure: the booking becomes \<open>CANCELLED\<close> and its seats are \<open>FREE\<close> afterwards. With 24
  hours or less the answer is \<open>CancellationWindowClosed\<close> and the engine is unchanged,
  one second to either side of the boundary included. The cancel button of the ticket
  list (\<open>isCancellable\<close>) is offered for a \<open>CONFIRMED\<close> booking under the same condition.
\<close>

theorem C3_cancellation_window:
  assumes "bid < length (bookings eng)"
    and "bookingState (bookings eng ! bid) = CONFIRMED"
    and "schedules eng (scheduleRef (bookings eng ! bid)) = Some sc"
  shows
    "(departure sc - now > 24 * 60 * 60 * 1000 \<longrightarrow>
        cancelBookingCore eng now bid True =
          (Inr ((bookings eng ! bid)\<lparr>bookingState := CANCELLED\<rparr>),
           eng\<lparr>inventory := release (inventory eng) (scheduleRef (bookings eng ! bid))
                                (seatSet (bookings eng ! bid)),
                bookings := (bookings eng)[bid := (bookings eng ! bid)\<lparr>bookingState := CANCELLED\<rparr>]\<rparr>) \<and>
        (\<forall>n \<in> set (seatSet (bookings eng ! bid)).
           inventory (snd (cancelBookingCore eng now bid True))
             (scheduleRef (bookings eng ! bid)) n = FREE)) \<and>
     (departure sc - now \<le> 24 * 60 * 60 * 1000 \<longrightarrow>
        cancelBookingCore eng now bid True = (Inl CancellationWindowClosed, eng)) \<and>
     fst (cancelBookingCore eng (departure sc - 24 * 60 * 60 * 1000 - 1000) bid True)
       = Inr ((bookings eng ! bid)\<lparr>bookingState := CANCELLED\<rparr>) \<and>
     cancelBookingCore eng (departure sc - 24 * 60 * 60 * 1000 + 1000) bid True
       = (Inl CancellationWindowClosed, eng) \<and>
     (\<forall>ticket. status ticket = CONFIRMED \<longrightarrow>
        isCancellable now ticket = (departureTime ticket - now > 24 * 60 * 60 * 1000))"
proof -
  let ?b = "bookings eng ! bid"
  have step: "cancelBookingCore eng t bid True =
      (if departure sc - t > 86400000
       then (Inr (?b\<lparr>bookingState := CANCELLED\<rparr>),
             eng\<lparr>inventory := release (inventory eng) (scheduleRef ?b) (seatSet ?b),
                  bookings := (bookings eng)[bid := ?b\<lparr>bookingState := CANCELLED\<rparr>]\<rparr>)
       else (Inl CancellationWindowClosed, eng))" for t
    using assms
    by (simp add: cancelBookingCore_def transition_def applySideEffect_def
          cancellationWindow_def Let_def)
  have freed: "\<forall>n \<in> set (seatSet ?b).
      release (inventory eng) (scheduleRef ?b) (seatSet ?b) (scheduleRef ?b) n = FREE"
    by (simp add: release_def setSeats_apply)
  have gate: "\<forall>ticket. status ticket = CONFIRMED \<longrightarrow>
        isCancellable now ticket = (departureTime ticket - now > 24 * 60 * 60 * 1000)"
    by (simp add: isCancellable_iff)
  from step [of now] step [of "departure sc - 24 * 60 * 60 * 1000 - 1000"]
    step [of "departure sc - 24 * 60 * 60 * 1000 + 1000"] freed gate
  show ?thesis by simp
qed

theorem C3_cancellation_window_witness:
  "0 < length (bookings (runEngine alwaysPaid exampleStart [hd exampleRequests])) \<and>
   bookingState (bookings (runEngine alwaysPaid exampleStart [hd exampleRequests]) ! 0)
     = CONFIRMED \<and>
   schedules (runEngine alwaysPaid exampleStart [hd exampleRequests])
       (scheduleRef (bookings (runEngine alwaysPaid exampleStart [hd exampleRequests]) ! 0))
     = Some (exampleSchedule 2) \<and>
   departure (exampleSchedule 2) - 1799913599000 > (24 * 60 * 60 * 1000 :: int) \<and>
   bookingState (bookings (snd (cancelBookingCore
       (runEngine alwaysPaid exampleStart [hd exampleRequests]) 1799913599000 0 True)) ! 0)
     = CANCELLED \<and>
   inventory (snd (cancelBookingCore
       (runEngine alwaysPaid exampleStart [hd exampleRequests]) 1799913599000 0 True)) ''S1'' 1
     = FREE \<and>
   departure (exampleSchedule 2) - 1799913601000 \<le> (24 * 60 * 60 * 1000 :: int) \<and>
   cancelBookingCore (runEngine alwaysPaid exampleStart [hd exampleRequests])
       1799913601000 0 True
     = (Inl CancellationWindowClosed, runEngine alwaysPaid exampleStart [hd exampleRequests])"
proof -
  let ?E = "runEngine alwaysPaid exampleStart [hd exampleRequests]"
  have pre: "0 < length (bookings ?E)" "bookingState (bookings ?E ! 0) = CONFIRMED"
    "schedules ?E (scheduleRef (bookings ?E ! 0)) = Some (exampleSchedule 2)"
    by (simp_all add: engine_eval)
  have seat: "scheduleRef (bookings ?E ! 0) = ''S1''" "seatSet (bookings ?E ! 0) = [1]"
    by (simp_all add: engine_eval)
  have early: "departure (exampleSchedule 2) - 1799913599000 > (24 * 60 * 60 * 1000 :: int)"
    and late: "departure (exampleSchedule 2) - 1799913601000 \<le> (24 * 60 * 60 * 1000 :: int)"
    by (simp_all add: exampleSchedule_def)
  from C3_cancellation_window [OF pre, of 1799913599000] early
  have success: "cancelBookingCore ?E 1799913599000 0 True =
          (Inr ((bookings ?E ! 0)\<lparr>bookingState := CANCELLED\<rparr>),
           ?E\<lparr>inventory := release (inventory ?E) (scheduleRef (bookings ?E ! 0))
                                (seatSet (bookings ?E ! 0)),
                bookings := (bookings ?E)[0 := (bookings ?E ! 0)\<lparr>bookingState := CANCELLED\<rparr>]\<rparr>)"
    by blast
  from C3_cancellation_window [OF pre, of 1799913601000] late
  have refusal: "cancelBookingCore ?E 1799913601000 0 True = (Inl CancellationWindowClosed, ?E)"
    by blast
  have "bookingState (bookings (snd (cancelBookingCore ?E 1799913599000 0 True)) ! 0) = CANCELLED"
    unfolding success using pre(1) by simp
  moreover have "inventory (snd (cancelBookingCore ?E 1799913599000 0 True)) ''S1'' 1 = FREE"
    unfolding success by (simp add: seat release_def setSeats_apply)
  ultimately show ?thesis
    using pre early late refusal by simp
qed

subsection \<open>Declined payments\<close>

text \<open>
  C5. When a request has passed the checks, its seats are free and the payment
  capability declines the charge (mobile money or card), \<open>createBooking\<close> answers
  \<open>PaymentFailed\<close>; the inventory and the bookings are what they were before the call, so
  the availability snapshot is the one from before, lists the requested seats as free,
  and no booking, pending or other, exists for the request. On the client, a request
  that fails never hands a booking to \<open>onBookingComplete\<close>.
\<close>

theorem C5_payment_failure_releases:
  assumes "schedules eng sid = Some sc" and "scheduleStatus sc = ACTIVE"
    and "length seatNos = count" and "validSeatSet eng sid seatNos"
    and "\<forall>n \<in> set seatNos. inventory eng sid n = FREE"
    and "payBy \<noteq> PayLater"
    and "charge (seatPrice sc * int (length seatNos)) payBy who = Declined"
  shows
    "fst (createBooking charge eng now sid seatNos count who payBy) = Inl PaymentFailed \<and>
     inventory (snd (createBooking charge eng now sid seatNos count who payBy))
       = inventory eng \<and>
     bookings (snd (createBooking charge eng now sid seatNos count who payBy))
       = bookings eng \<and>
     snapshotAvailability (snd (createBooking charge eng now sid seatNos count who payBy)) sid
       = snapshotAvailability eng sid \<and>
     (\<exists>av. snapshotAvailability
             (snd (createBooking charge eng now sid seatNos count who payBy)) sid = Inr av \<and>
           set seatNos \<subseteq> freeSeats av) \<and>
     (\<forall>booking. onSubmit props amb user selected data Rejected \<noteq> BookingComplete booking)"
proof -
  note r = createBooking_declined [where charge = charge and now = now, OF assms]
  from assms(1,4) have range: "\<forall>n \<in> set seatNos. 1 \<le> n \<and> n \<le> totalSeats sc"
    by (simp add: validSeatSet_def list_all_iff)
  have snap: "snapshotAvailability
                (snd (createBooking charge eng now sid seatNos count who payBy)) sid
              = snapshotAvailability eng sid"
    by (simp add: r snapshotAvailability_def assms(1))
  have "\<exists>av. snapshotAvailability eng sid = Inr av \<and> set seatNos \<subseteq> freeSeats av"
    using assms(1,5) range by (auto simp add: snapshotAvailability_def)
  with snap r show ?thesis
    by (simp add: onSubmit_def)
qed

theorem C5_payment_failure_releases_witness:
  "fst (createBooking alwaysDeclined exampleStart 1790000000000 ''S1'' [1, 2] 2
          (Guest ''Bea'' ''bea@example.rw'' ''0781111111'') Card) = Inl PaymentFailed \<and>
   bookings (snd (createBooking alwaysDeclined exampleStart 1790000000000 ''S1'' [1, 2] 2
          (Guest ''Bea'' ''bea@example.rw'' ''0781111111'') Card)) = [] \<and>
   snapshotAvailability
       (snd (createBooking alwaysDeclined exampleStart 1790000000000 ''S1'' [1, 2] 2
          (Guest ''Bea'' ''bea@example.rw'' ''0781111111'') Card)) ''S1''
     = Inr \<lparr> freeSeats = {1, 2}, heldSeats = {}, bookedSeats = {} \<rparr>"
proof -
  let ?who = "Guest ''Bea'' ''bea@example.rw'' ''0781111111''"
  have pre: "schedules exampleStart ''S1'' = Some (exampleSchedule 2)"
    "scheduleStatus (exampleSchedule 2) = ACTIVE" "length [1, 2 :: nat] = 2"
    "validSeatSet exampleStart ''S1'' [1, 2]"
    "\<forall>n \<in> set [1, 2]. inventory exampleStart ''S1'' n = FREE"
    "Card \<noteq> PayLater"
    "alwaysDeclined (seatPrice (exampleSchedule 2) * int (length [1, 2 :: nat])) Card ?who
       = Declined"
    by (simp_all add: engine_eval)
  have before: "bookings exampleStart = []"
    "snapshotAvailability exampleStart ''S1''
       = Inr \<lparr> freeSeats = {1, 2}, heldSeats = {}, bookedSeats = {} \<rparr>"
    by (auto simp add: snapshotAvailability_def engine_eval)
  from C5_payment_failure_releases [where charge = alwaysDeclined and now = 1790000000000, OF pre]
    before
  show ?thesis by simp
qed

end
